theory Spec2Isabelle
  imports Complex_Main
begin

section \<open>ClawOps fleet health monitor\<close>

text \<open>
  A shallow embedding of \<^verbatim>\<open>HealthMonitorService\<close> (the background fleet health monitor of
  the openclaw-clawops plugin) and of the types it reads.

  Conventions of the embedding:
  \<^item> a JavaScript \<^verbatim>\<open>number\<close> that counts instances, minutes or milliseconds is an \<open>int\<close>;
    a score, a percentage or an amount of money is a \<open>real\<close> (finite values only, so no
    NaN);
  \<^item> a \<^verbatim>\<open>Date\<close> is its time value in milliseconds; a reading of the system clock
    (\<^verbatim>\<open>new Date()\<close>, \<^verbatim>\<open>Date.now()\<close>) is always a valid time value, a computed one
    (\<^verbatim>\<open>new Date(ms)\<close>) may be the invalid date, on which \<^verbatim>\<open>toISOString\<close> throws;
  \<^item> an ISO timestamp string is represented by the time value it renders;
  \<^item> the object \<^verbatim>\<open>this\<close> is a record that every method takes and returns;
  \<^item> a method that can throw returns the object as it is at that moment together with
    \<open>Inl\<close> of the error, or \<open>Inr\<close> of its result;
  \<^item> what lies outside the process (the status endpoint, the delivery endpoint, the
    clock) is a parameter: the outcome of the fetch, the function \<open>post\<close> from a request
    to its outcome, the clock reading \<open>now\<close>;
  \<^item> sweeps run one after the other, never overlapping;
  \<^item> the \<^verbatim>\<open>message\<close> entry of an event payload (a sentence for humans rendering the same
    numbers as the other entries) is left out of the payload.
\<close>

subsection \<open>The fleet status snapshot\<close>

datatype role = PRIMARY | STANDBY

record InstanceRecord =
  instanceId :: string
  accountId :: string
  provider :: string
  region :: string
  tier :: string
  role :: role
  status :: string
  healthScore :: real
  pairInstanceId :: "string option"
  lastHeartbeat :: string
  ipTailscale :: string
  provisionedAt :: string
  monthlyCostUsd :: real

record TierSummary =
  count :: int
  monthlyCostUsd :: real
  avgCpuUsagePct :: real
  avgMemUsagePct :: real

record ProviderSummary =
  total :: int
  active :: int
  degraded :: int
  failed :: int
  healthScore :: real
  avgProvisionTimeSecs :: real
  monthlyCostUsd :: real

record CostSummary =
  monthlyActualUsd :: real
  monthlyProjectedUsd :: real
  deviationPct :: real
  weeklyActualUsd :: real
  perActiveAccountUsd :: real

datatype severity = SevInfo | SevWarning | SevCritical

record Alert =
  severity :: severity
  instanceId :: "string option"
  message :: string

text \<open>
  \<^verbatim>\<open>Record<string, V>\<close> is the list of its entries in the order of \<^verbatim>\<open>Object.entries\<close>;
  the keys of an object are distinct.
\<close>

record FleetStatusResult =
  snapshotId :: string
  capturedAt :: string
  totalInstances :: int
  activePairs :: int
  degradedInstances :: int
  failedInstances :: int
  bootstrappingInstances :: int
  unpaired :: int
  byProvider :: "(string \<times> ProviderSummary) list"
  byTier :: "(string \<times> TierSummary) list"
  cost :: CostSummary
  instances :: "InstanceRecord list option"
  alerts :: "Alert list"

subsection \<open>Events\<close>

datatype MonitorEventType =
    INSTANCE_DEGRADED
  | INSTANCE_FAILED
  | PAIR_FAILED
  | COST_ANOMALY
  | PROVISION_QUEUE_BACKLOG
  | PROVIDER_DEGRADED
  | FLEET_RECOVERING
  | FLEET_HEALTHY

datatype priority = Low | Medium | High | Critical

datatype agent = Guardian | Ledger | Forge | Commander

text \<open>\<^verbatim>\<open>`evt-${Date.now()}-suffix`\<close>: the clock reading and the suffix.\<close>

datatype event_id = Evt int string

text \<open>The payloads, one constructor for each object literal of the source, its entries in order.\<close>

datatype payload =
    DegradedPayload (degradedCount: int) (failedCountD: int)
      (byProviderD: "(string \<times> ProviderSummary) list")
  | FailedPayload (failedCount: int) (alertsF: "Alert list")
  | CostPayload (actualUsd: real) (projectedUsd: real) (deviationPctC: real) (direction: string)
  | QueuePayload (queueDepth: int) (bootstrappingInstancesQ: int)
  | ProviderPayload (providerP: string) (healthScoreP: real) (activeInstances: int)
      (degradedInstancesP: int)
  | RecoveryPayload (previousFailed: int) (previousDegraded: int)

record MonitorEvent =
  eventId :: event_id
  type :: MonitorEventType
  priority :: priority
  timestamp :: int
  targetAgent :: agent
  payload :: payload
  suppressUntil :: "int option"

subsection \<open>Configuration and thresholds\<close>

record ClawOpsConfig =
  gfApiBase :: string
  gfApiKey :: string
  healthPollIntervalMs :: "int option"
  guardianSessionId :: "string option"
  ledgerSessionId :: "string option"
  commanderSessionId :: "string option"

record MonitorThresholds =
  instanceDegradedScore :: real
  costAnomalyPct :: real
  provisionQueueDepth :: int
  providerDegradedScore :: real
  degradedSuppressionMins :: int

definition DEFAULT_THRESHOLDS :: MonitorThresholds where
  "DEFAULT_THRESHOLDS =
     \<lparr>instanceDegradedScore = 50, costAnomalyPct = 15, provisionQueueDepth = 20,
      providerDegradedScore = 75, degradedSuppressionMins = 30\<rparr>"

text \<open>
  \<^verbatim>\<open>Partial<MonitorThresholds>\<close>: each key may be absent, or present with the value
  \<^verbatim>\<open>undefined\<close> (the optional property admits it), or present with a number.
\<close>

datatype 'a entry = Absent | Undefined | Present 'a

record PartialThresholds =
  instanceDegradedScore_entry :: "real entry"
  costAnomalyPct_entry :: "real entry"
  provisionQueueDepth_entry :: "int entry"
  providerDegradedScore_entry :: "real entry"
  degradedSuppressionMins_entry :: "int entry"

text \<open>
  One key of the spread \<^verbatim>\<open>{ ...DEFAULT_THRESHOLDS, ...thresholds }\<close>: an absent key keeps the
  default, a present key overwrites it, also with \<^verbatim>\<open>undefined\<close>. On \<^verbatim>\<open>undefined\<close> the result
  is \<open>None\<close>: the merged object then holds no number under that key, so it is not a
  \<open>MonitorThresholds\<close>, and a monitor built from it is outside this embedding.
\<close>

fun spreadEntry :: "'a \<Rightarrow> 'a entry \<Rightarrow> 'a option" where
  "spreadEntry d Absent = Some d"
| "spreadEntry d Undefined = None"
| "spreadEntry d (Present v) = Some v"

definition mergeThresholds :: "PartialThresholds option \<Rightarrow> MonitorThresholds option" where
  "mergeThresholds thresholds =
     (case thresholds of
        None \<Rightarrow> Some DEFAULT_THRESHOLDS
      | Some t \<Rightarrow>
          (case (spreadEntry (instanceDegradedScore DEFAULT_THRESHOLDS)
                   (instanceDegradedScore_entry t),
                 spreadEntry (costAnomalyPct DEFAULT_THRESHOLDS) (costAnomalyPct_entry t),
                 spreadEntry (provisionQueueDepth DEFAULT_THRESHOLDS)
                   (provisionQueueDepth_entry t),
                 spreadEntry (providerDegradedScore DEFAULT_THRESHOLDS)
                   (providerDegradedScore_entry t),
                 spreadEntry (degradedSuppressionMins DEFAULT_THRESHOLDS)
                   (degradedSuppressionMins_entry t)) of
             (Some a, Some b, Some c, Some d, Some e) \<Rightarrow>
               Some \<lparr>instanceDegradedScore = a, costAnomalyPct = b, provisionQueueDepth = c,
                     providerDegradedScore = d, degradedSuppressionMins = e\<rparr>
           | _ \<Rightarrow> None))"

subsection \<open>Dates and errors\<close>

datatype error = RangeError | AxiosError

text \<open>
  \<^verbatim>\<open>new Date(ms)\<close>: a time value beyond 8.64e15 milliseconds on either side of the epoch
  gives the invalid date (\<open>None\<close>).
\<close>

definition maxTimeValue :: int where
  "maxTimeValue = 8640000000000000"

definition newDate :: "int \<Rightarrow> int option" where
  "newDate ms = (if \<bar>ms\<bar> \<le> maxTimeValue then Some ms else None)"

text \<open>\<^verbatim>\<open>Date.prototype.toISOString\<close> throws a RangeError on the invalid date.\<close>

definition toISOString :: "int option \<Rightarrow> error + int" where
  "toISOString d = (case d of None \<Rightarrow> Inl RangeError | Some t \<Rightarrow> Inr t)"

subsection \<open>The service object\<close>

text \<open>
  \<^verbatim>\<open>Map<string, Date>\<close> is a map from keys to time values. Only valid dates are ever
  stored: each \<^verbatim>\<open>set\<close> of the source comes after \<^verbatim>\<open>toISOString\<close> has succeeded on the same
  date.
\<close>

type_synonym ledger = "string \<rightharpoonup> int"

record HealthMonitorService =
  config :: ClawOpsConfig
  thresholds :: MonitorThresholds
  running :: bool
  pollTimer :: "int option"
  suppressedInstances :: ledger
  suppressedProviders :: ledger
  lastKnownState :: "FleetStatusResult option"

text \<open>
  The constructor. Its result is \<open>None\<close> exactly when the spread leaves \<^verbatim>\<open>undefined\<close> under
  a key of the thresholds.
\<close>

definition new_HealthMonitorService ::
  "ClawOpsConfig \<Rightarrow> PartialThresholds option \<Rightarrow> HealthMonitorService option" where
  "new_HealthMonitorService cfg ths =
     (case mergeThresholds ths of
        None \<Rightarrow> None
      | Some merged \<Rightarrow>
          Some \<lparr>config = cfg, thresholds = merged, running = False, pollTimer = None,
                suppressedInstances = Map.empty, suppressedProviders = Map.empty,
                lastKnownState = None\<rparr>)"

subsection \<open>The check functions\<close>

text \<open>
  \<^verbatim>\<open>!suppressedUntil || now > suppressedUntil\<close>: a stored date is an object, hence truthy;
  only a missing key gives \<^verbatim>\<open>undefined\<close>.
\<close>

definition notSuppressed :: "int option \<Rightarrow> int \<Rightarrow> bool" where
  "notSuppressed suppressedUntil now =
     (case suppressedUntil of None \<Rightarrow> True | Some u \<Rightarrow> now > u)"

text \<open>
  \<open>now\<close> is the clock during the call; the check runs synchronously and every clock
  reading inside it is this one value.
\<close>

definition checkInstanceHealth ::
  "int \<Rightarrow> FleetStatusResult \<Rightarrow> HealthMonitorService \<Rightarrow>
   HealthMonitorService \<times> (error + MonitorEvent list)" where
  "checkInstanceHealth now fleet this =
     (let suppressionMs = degradedSuppressionMins (thresholds this) * 60000;
          key = ''fleet-degraded'';
          failedEvents =
            (if failedInstances fleet > 0
             then [\<lparr>eventId = Evt now ''failed'', type = PAIR_FAILED, priority = Critical,
                    timestamp = now, targetAgent = Guardian,
                    payload = FailedPayload (failedInstances fleet)
                                (filter (\<lambda>a. severity a = SevCritical) (alerts fleet)),
                    suppressUntil = None\<rparr>]
             else [])
      in if degradedInstances fleet > 0
            \<and> notSuppressed (suppressedInstances this key) now
         then (case toISOString (newDate (now + suppressionMs)) of
                 Inl e \<Rightarrow> (this, Inl e)
               | Inr until \<Rightarrow>
                   (this\<lparr>suppressedInstances := (suppressedInstances this)(key \<mapsto> until)\<rparr>,
                    Inr (\<lparr>eventId = Evt now ''degraded'', type = INSTANCE_DEGRADED,
                          priority = (if degradedInstances fleet > 10 then High else Medium),
                          timestamp = now, targetAgent = Guardian,
                          payload = DegradedPayload (degradedInstances fleet)
                                      (failedInstances fleet) (byProvider fleet),
                          suppressUntil = Some until\<rparr> # failedEvents)))
         else (this, Inr failedEvents))"

definition checkCostAnomaly ::
  "int \<Rightarrow> FleetStatusResult \<Rightarrow> HealthMonitorService \<Rightarrow> MonitorEvent option" where
  "checkCostAnomaly now fleet this =
     (let c = cost fleet in
      if \<bar>deviationPct c\<bar> \<ge> costAnomalyPct (thresholds this)
      then Some \<lparr>eventId = Evt now ''cost'', type = COST_ANOMALY,
                 priority = (if \<bar>deviationPct c\<bar> > 25 then High else Medium),
                 timestamp = now, targetAgent = Ledger,
                 payload = CostPayload (monthlyActualUsd c) (monthlyProjectedUsd c)
                             (deviationPct c)
                             (if deviationPct c > 0 then ''over'' else ''under''),
                 suppressUntil = None\<rparr>
      else None)"

definition checkProvisionQueue ::
  "int \<Rightarrow> FleetStatusResult \<Rightarrow> HealthMonitorService \<Rightarrow> MonitorEvent option" where
  "checkProvisionQueue now fleet this =
     (let queueDepth = bootstrappingInstances fleet in
      if queueDepth \<ge> provisionQueueDepth (thresholds this)
      then Some \<lparr>eventId = Evt now ''queue'', type = PROVISION_QUEUE_BACKLOG,
                 priority = (if queueDepth > 50 then High else Medium),
                 timestamp = now, targetAgent = Forge,
                 payload = QueuePayload queueDepth (bootstrappingInstances fleet),
                 suppressUntil = None\<rparr>
      else None)"

text \<open>
  The loop of \<^verbatim>\<open>checkProviderHealth\<close> over \<^verbatim>\<open>Object.entries(fleet.byProvider)\<close>, with
  the events pushed so far. A throw leaves the loop with the entries set or deleted by the
  iterations before it.
\<close>

fun checkProviderHealth_loop ::
  "int \<Rightarrow> (string \<times> ProviderSummary) list \<Rightarrow> MonitorEvent list \<Rightarrow> HealthMonitorService \<Rightarrow>
   HealthMonitorService \<times> (error + MonitorEvent list)" where
  "checkProviderHealth_loop now [] events this = (this, Inr events)"
| "checkProviderHealth_loop now ((prov, summary) # rest) events this =
     (if healthScore summary < providerDegradedScore (thresholds this)
      then (if notSuppressed (suppressedProviders this prov) now
            then (case toISOString (newDate (now + 60 * 60000)) of
                    Inl e \<Rightarrow> (this, Inl e)
                  | Inr until \<Rightarrow>
                      checkProviderHealth_loop now rest
                        (events @
                         [\<lparr>eventId = Evt now (''provider-'' @ prov),
                           type = PROVIDER_DEGRADED,
                           priority = (if healthScore summary < 50 then Critical else High),
                           timestamp = now, targetAgent = Commander,
                           payload = ProviderPayload prov (healthScore summary)
                                       (active summary) (degraded summary),
                           suppressUntil = Some until\<rparr>])
                        (this\<lparr>suppressedProviders :=
                                 (suppressedProviders this)(prov \<mapsto> until)\<rparr>))
            else checkProviderHealth_loop now rest events this)
      else checkProviderHealth_loop now rest events
             (this\<lparr>suppressedProviders := (suppressedProviders this)(prov := None)\<rparr>))"

definition checkProviderHealth ::
  "int \<Rightarrow> FleetStatusResult \<Rightarrow> HealthMonitorService \<Rightarrow>
   HealthMonitorService \<times> (error + MonitorEvent list)" where
  "checkProviderHealth now fleet this =
     checkProviderHealth_loop now (byProvider fleet) [] this"

definition checkFleetRecovery ::
  "int \<Rightarrow> FleetStatusResult \<Rightarrow> HealthMonitorService \<Rightarrow> MonitorEvent option" where
  "checkFleetRecovery now fleet this =
     (case lastKnownState this of
        None \<Rightarrow> None
      | Some prev \<Rightarrow>
          if (failedInstances prev > 0 \<or> degradedInstances prev > 0)
             \<and> failedInstances fleet = 0 \<and> degradedInstances fleet = 0
          then Some \<lparr>eventId = Evt now ''recovery'', type = FLEET_RECOVERING, priority = Low,
                     timestamp = now, targetAgent = Commander,
                     payload = RecoveryPayload (failedInstances prev) (degradedInstances prev),
                     suppressUntil = None\<rparr>
          else None)"

subsection \<open>Event emission\<close>

datatype log_line =
    DebugRunningSweep
  | ErrorFetchFailed error
  | LogEmit MonitorEventType agent priority
  | WarnNoSession agent
  | ErrorEmitFailed MonitorEventType error
  | DebugSweepComplete nat
  | WarnAlreadyRunning
  | LogStarting int
  | ErrorInitialSweepFailed error
  | ErrorSweepFailed error
  | LogStopped

fun getSessionId :: "agent \<Rightarrow> HealthMonitorService \<Rightarrow> string option" where
  "getSessionId Guardian this = guardianSessionId (config this)"
| "getSessionId Ledger this = ledgerSessionId (config this)"
| "getSessionId Commander this = commanderSessionId (config this)"
| "getSessionId Forge this = None"

text \<open>The request of \<^verbatim>\<open>axios.post(url, event, { headers, timeout })\<close>.\<close>

record post_request =
  url :: string
  data :: MonitorEvent
  authorization :: string
  timeout :: int

text \<open>
  \<open>post\<close> is the network: what \<^verbatim>\<open>axios.post\<close> does with a request, \<open>Inl\<close> when its
  promise rejects. The result of \<open>emitEvent\<close> is the lines it logs and the requests it sends.
  \<^verbatim>\<open>!sessionId\<close> holds for \<^verbatim>\<open>undefined\<close> and for the empty string.
\<close>

definition emitEvent ::
  "(post_request \<Rightarrow> error + unit) \<Rightarrow> MonitorEvent \<Rightarrow> HealthMonitorService \<Rightarrow>
   error + (log_line list \<times> post_request list)" where
  "emitEvent post event this =
     (let line = LogEmit (type event) (targetAgent event) (priority event);
          sessionId = getSessionId (targetAgent event) this
      in case sessionId of
           None \<Rightarrow> Inr ([line, WarnNoSession (targetAgent event)], [])
         | Some sid \<Rightarrow>
             if sid = []
             then Inr ([line, WarnNoSession (targetAgent event)], [])
             else (let request =
                         \<lparr>url = gfApiBase (config this) @ ''/_internal/sessions/''
                                  @ sid @ ''/event'',
                          data = event,
                          authorization = ''Bearer '' @ gfApiKey (config this),
                          timeout = 5000\<rparr>
                   in case post request of
                        Inl e \<Rightarrow> Inr ([line], [request])
                      | Inr u \<Rightarrow> Inr ([line], [request])))"

text \<open>
  The loop \<^verbatim>\<open>for (const event of events) await this.emitEvent(event).catch(...)\<close>.
\<close>

fun emitAll ::
  "(post_request \<Rightarrow> error + unit) \<Rightarrow> MonitorEvent list \<Rightarrow> HealthMonitorService \<Rightarrow>
   log_line list \<times> post_request list" where
  "emitAll post [] this = ([], [])"
| "emitAll post (event # events) this =
     (let (ls, rs) = (case emitEvent post event this of
                        Inl e \<Rightarrow> ([ErrorEmitFailed (type event) e], [])
                      | Inr out \<Rightarrow> out);
          (ls', rs') = emitAll post events this
      in (ls @ ls', rs @ rs'))"

subsection \<open>The sweep\<close>

text \<open>
  What one call of \<^verbatim>\<open>runSweep\<close> leaves behind: the object, the error its promise rejects
  with (if any), the events handed to \<open>emitEvent\<close>, the requests sent and the lines logged
  (the duration in the last line is left out).
\<close>

record SweepResult =
  monitor :: HealthMonitorService
  thrown :: "error option"
  emitted :: "MonitorEvent list"
  posts :: "post_request list"
  logs :: "log_line list"

definition toList :: "'a option \<Rightarrow> 'a list" where
  "toList x = (case x of None \<Rightarrow> [] | Some e \<Rightarrow> [e])"

text \<open>
  \<open>fetched\<close> is the outcome of \<^verbatim>\<open>fetchFleetStatus\<close> (the GET of the status endpoint),
  \<open>Inl\<close> when its promise rejects. The five checks run without an \<^verbatim>\<open>await\<close> between them;
  \<open>now\<close> is the clock during that evaluation.
\<close>

definition runSweep ::
  "(error + FleetStatusResult) \<Rightarrow> (post_request \<Rightarrow> error + unit) \<Rightarrow> int \<Rightarrow>
   HealthMonitorService \<Rightarrow> SweepResult" where
  "runSweep fetched post now this =
     (case fetched of
        Inl e \<Rightarrow>
          \<lparr>monitor = this, thrown = None, emitted = [], posts = [],
           logs = [DebugRunningSweep, ErrorFetchFailed e]\<rparr>
      | Inr fleetStatus \<Rightarrow>
          (case checkInstanceHealth now fleetStatus this of
             (this1, Inl e) \<Rightarrow>
               \<lparr>monitor = this1, thrown = Some e, emitted = [], posts = [],
                logs = [DebugRunningSweep]\<rparr>
           | (this1, Inr instanceEvents) \<Rightarrow>
               (let costEvent = checkCostAnomaly now fleetStatus this1;
                    queueEvent = checkProvisionQueue now fleetStatus this1
                in case checkProviderHealth now fleetStatus this1 of
                     (this2, Inl e) \<Rightarrow>
                       \<lparr>monitor = this2, thrown = Some e, emitted = [], posts = [],
                        logs = [DebugRunningSweep]\<rparr>
                   | (this2, Inr providerEvents) \<Rightarrow>
                       (let recoveryEvent = checkFleetRecovery now fleetStatus this2;
                            events = instanceEvents @ toList costEvent @ toList queueEvent
                                     @ providerEvents @ toList recoveryEvent;
                            (ls, rs) = emitAll post events this2
                        in \<lparr>monitor = this2\<lparr>lastKnownState := Some fleetStatus\<rparr>,
                            thrown = None, emitted = events, posts = rs,
                            logs = [DebugRunningSweep] @ ls
                                   @ [DebugSweepComplete (length events)]\<rparr>))))"

subsection \<open>The scheduler\<close>

text \<open>
  \<^verbatim>\<open>start\<close> runs one sweep and arms the interval timer (\<open>pollTimer\<close> holds the interval);
  \<open>tick\<close> is the timer's callback; both catch and log what \<open>runSweep\<close> throws.
\<close>

definition start ::
  "(error + FleetStatusResult) \<Rightarrow> (post_request \<Rightarrow> error + unit) \<Rightarrow> int \<Rightarrow>
   HealthMonitorService \<Rightarrow> SweepResult" where
  "start fetched post now this =
     (if running this
      then \<lparr>monitor = this, thrown = None, emitted = [], posts = [],
            logs = [WarnAlreadyRunning]\<rparr>
      else (let intervalMs = (case healthPollIntervalMs (config this) of
                                None \<Rightarrow> 300000 | Some ms \<Rightarrow> ms);
                r = runSweep fetched post now (this\<lparr>running := True\<rparr>)
            in \<lparr>monitor = (monitor r)\<lparr>pollTimer := Some intervalMs\<rparr>,
                thrown = None, emitted = emitted r, posts = posts r,
                logs = [LogStarting intervalMs] @ logs r
                       @ (case thrown r of None \<Rightarrow> []
                          | Some e \<Rightarrow> [ErrorInitialSweepFailed e])\<rparr>))"

definition tick ::
  "(error + FleetStatusResult) \<Rightarrow> (post_request \<Rightarrow> error + unit) \<Rightarrow> int \<Rightarrow>
   HealthMonitorService \<Rightarrow> SweepResult" where
  "tick fetched post now this =
     (if \<not> running this
      then \<lparr>monitor = this, thrown = None, emitted = [], posts = [], logs = []\<rparr>
      else (let r = runSweep fetched post now this
            in \<lparr>monitor = monitor r, thrown = None, emitted = emitted r, posts = posts r,
                logs = logs r @ (case thrown r of None \<Rightarrow> []
                                 | Some e \<Rightarrow> [ErrorSweepFailed e])\<rparr>))"

definition stop :: "HealthMonitorService \<Rightarrow> HealthMonitorService \<times> log_line list" where
  "stop this = (this\<lparr>running := False, pollTimer := None\<rparr>, [LogStopped])"

text \<open>
  The timer fires again and again: \<open>ticks\<close> runs the callback once for each pair of a fetch
  outcome and a clock reading, one after the other, and collects the results.
\<close>

fun ticks ::
  "(post_request \<Rightarrow> error + unit) \<Rightarrow> ((error + FleetStatusResult) \<times> int) list \<Rightarrow>
   HealthMonitorService \<Rightarrow> SweepResult list" where
  "ticks post [] this = []"
| "ticks post ((fetched, now) # rest) this =
     (let r = tick fetched post now this in r # ticks post rest (monitor r))"

subsection \<open>Vocabulary of the properties\<close>

text \<open>The events of one type in a list of events.\<close>

definition ofType :: "MonitorEventType \<Rightarrow> MonitorEvent list \<Rightarrow> MonitorEvent list" where
  "ofType t events = filter (\<lambda>e. type e = t) events"

text \<open>The \<open>PROVIDER_DEGRADED\<close> events about one provider.\<close>

definition aboutProvider :: "string \<Rightarrow> MonitorEvent \<Rightarrow> bool" where
  "aboutProvider p e =
     (type e = PROVIDER_DEGRADED \<and>
      (case payload e of ProviderPayload q h a d \<Rightarrow> q = p | _ \<Rightarrow> False))"

text \<open>
  Both expiry dates that a sweep at \<open>now\<close> may compute (the aggregate one, after the
  configured window, and the provider one, after an hour) are valid dates. Then no check
  throws.
\<close>

definition expiriesRepresentable :: "int \<Rightarrow> HealthMonitorService \<Rightarrow> bool" where
  "expiriesRepresentable now this =
     (\<bar>now + degradedSuppressionMins (thresholds this) * 60000\<bar> \<le> maxTimeValue
      \<and> \<bar>now + 60 * 60000\<bar> \<le> maxTimeValue)"

text \<open>The target that the source gives to the events of each type it creates.\<close>

fun targetOf :: "MonitorEventType \<Rightarrow> agent option" where
  "targetOf INSTANCE_DEGRADED = Some Guardian"
| "targetOf PAIR_FAILED = Some Guardian"
| "targetOf COST_ANOMALY = Some Ledger"
| "targetOf PROVISION_QUEUE_BACKLOG = Some Forge"
| "targetOf PROVIDER_DEGRADED = Some Commander"
| "targetOf FLEET_RECOVERING = Some Commander"
| "targetOf INSTANCE_FAILED = None"
| "targetOf FLEET_HEALTHY = None"

text \<open>
  The events that the checks push, given names so that the properties can refer to them:
  the two of \<open>checkInstanceHealth\<close> and the one of \<open>checkProviderHealth\<close>.
\<close>

definition instanceDegradedEvent ::
  "int \<Rightarrow> FleetStatusResult \<Rightarrow> HealthMonitorService \<Rightarrow> MonitorEvent" where
  "instanceDegradedEvent now fleet this =
     \<lparr>eventId = Evt now ''degraded'', type = INSTANCE_DEGRADED,
      priority = (if degradedInstances fleet > 10 then High else Medium),
      timestamp = now, targetAgent = Guardian,
      payload = DegradedPayload (degradedInstances fleet) (failedInstances fleet)
                  (byProvider fleet),
      suppressUntil = Some (now + degradedSuppressionMins (thresholds this) * 60000)\<rparr>"

definition pairFailedEvent :: "int \<Rightarrow> FleetStatusResult \<Rightarrow> MonitorEvent" where
  "pairFailedEvent now fleet =
     \<lparr>eventId = Evt now ''failed'', type = PAIR_FAILED, priority = Critical,
      timestamp = now, targetAgent = Guardian,
      payload = FailedPayload (failedInstances fleet)
                  (filter (\<lambda>a. severity a = SevCritical) (alerts fleet)),
      suppressUntil = None\<rparr>"


definition providerDegradedEvent :: "int \<Rightarrow> string \<Rightarrow> ProviderSummary \<Rightarrow> MonitorEvent" where
  "providerDegradedEvent now prov summary =
     \<lparr>eventId = Evt now (''provider-'' @ prov), type = PROVIDER_DEGRADED,
      priority = (if healthScore summary < 50 then Critical else High),
      timestamp = now, targetAgent = Commander,
      payload = ProviderPayload prov (healthScore summary) (active summary) (degraded summary),
      suppressUntil = Some (now + 3600000)\<rparr>"

text \<open>The request that \<open>emitEvent\<close> sends for an event, given the session id.\<close>

definition requestFor :: "string \<Rightarrow> MonitorEvent \<Rightarrow> HealthMonitorService \<Rightarrow> post_request" where
  "requestFor sid event this =
     \<lparr>url = gfApiBase (config this) @ ''/_internal/sessions/'' @ sid @ ''/event'',
      data = event, authorization = ''Bearer '' @ gfApiKey (config this), timeout = 5000\<rparr>"

subsection \<open>Concrete inputs\<close>

definition sampleConfig :: ClawOpsConfig where
  "sampleConfig =
     \<lparr>gfApiBase = ''https://gf.example'', gfApiKey = ''k'', healthPollIntervalMs = None,
      guardianSessionId = Some ''s-guardian'', ledgerSessionId = Some ''s-ledger'',
      commanderSessionId = Some ''s-commander''\<rparr>"

definition sampleSummary :: "real \<Rightarrow> ProviderSummary" where
  "sampleSummary score =
     \<lparr>total = 10, active = 8, degraded = 2, failed = 0, healthScore = score,
      avgProvisionTimeSecs = 90, monthlyCostUsd = 120\<rparr>"

definition sampleAlerts :: "Alert list" where
  "sampleAlerts =
     [\<lparr>severity = SevCritical, instanceId = Some ''i-1'', message = ''pair down''\<rparr>,
      \<lparr>severity = SevWarning, instanceId = None, message = ''disk''\<rparr>]"

text \<open>A healthy fleet of ten instances at one provider; the other inputs vary it.\<close>

definition sampleFleet :: FleetStatusResult where
  "sampleFleet =
     \<lparr>snapshotId = ''snap'', capturedAt = ''2023-11-14T22:13:20.000Z'',
      totalInstances = 10, activePairs = 5, degradedInstances = 0, failedInstances = 0,
      bootstrappingInstances = 0, unpaired = 0,
      byProvider = [(''hetzner'', sampleSummary 80)], byTier = [],
      cost = \<lparr>monthlyActualUsd = 1000, monthlyProjectedUsd = 1000, deviationPct = 0,
              weeklyActualUsd = 250, perActiveAccountUsd = 100\<rparr>,
      instances = None, alerts = sampleAlerts\<rparr>"

definition fleetWith :: "int \<Rightarrow> int \<Rightarrow> real \<Rightarrow> FleetStatusResult" where
  "fleetWith d f score =
     sampleFleet\<lparr>degradedInstances := d, failedInstances := f,
                 byProvider := [(''hetzner'', sampleSummary score)]\<rparr>"

definition fleetCost :: "real \<Rightarrow> FleetStatusResult" where
  "fleetCost dev =
     sampleFleet\<lparr>cost := \<lparr>monthlyActualUsd = 1000 + 10 * dev, monthlyProjectedUsd = 1000,
                           deviationPct = dev, weeklyActualUsd = 250,
                           perActiveAccountUsd = 100\<rparr>\<rparr>"

text \<open>
  A monitor with the default thresholds, and one with a suppression window of 10^12
  minutes, each as its constructor builds it and \<^verbatim>\<open>start\<close> sets it running.
\<close>

definition sampleMonitor :: HealthMonitorService where
  "sampleMonitor =
     \<lparr>config = sampleConfig, thresholds = DEFAULT_THRESHOLDS, running = True,
      pollTimer = None, suppressedInstances = Map.empty, suppressedProviders = Map.empty,
      lastKnownState = None\<rparr>"

definition longWindow :: PartialThresholds where
  "longWindow =
     \<lparr>instanceDegradedScore_entry = Absent, costAnomalyPct_entry = Absent,
      provisionQueueDepth_entry = Absent, providerDegradedScore_entry = Absent,
      degradedSuppressionMins_entry = Present 1000000000000\<rparr>"

definition longWindowMonitor :: HealthMonitorService where
  "longWindowMonitor =
     \<lparr>config = sampleConfig,
      thresholds = DEFAULT_THRESHOLDS\<lparr>degradedSuppressionMins := 1000000000000\<rparr>,
      running = True, pollTimer = None, suppressedInstances = Map.empty,
      suppressedProviders = Map.empty, lastKnownState = None\<rparr>"

definition sampleNow :: int where
  "sampleNow = 1700000000000"

text \<open>
  A degraded fleet with a cost deviation of 20 percent and 30 instances bootstrapping, and
  the backlog event of a fleet with 30 instances bootstrapping.
\<close>

definition burstFleet :: FleetStatusResult where
  "burstFleet = (fleetCost 20)\<lparr>degradedInstances := 1, bootstrappingInstances := 30\<rparr>"

definition sampleQueueEvent :: MonitorEvent where
  "sampleQueueEvent =
     \<lparr>eventId = Evt sampleNow ''queue'', type = PROVISION_QUEUE_BACKLOG, priority = Medium,
      timestamp = sampleNow, targetAgent = Forge, payload = QueuePayload 30 30,
      suppressUntil = None\<rparr>"

definition postOk :: "post_request \<Rightarrow> error + unit" where
  "postOk request = Inr ()"

definition postFails :: "post_request \<Rightarrow> error + unit" where
  "postFails request = Inl AxiosError"

text \<open>The last instant that is a valid date.\<close>

definition lastInstant :: int where
  "lastInstant = 8640000000000000"

text \<open>
  The monitor after a sweep that finds degraded instances and a degraded provider, after
  a second such sweep five minutes later, and after a third sweep, five minutes later
  again, that finds the fleet and the provider healthy.
\<close>

definition afterBreach :: HealthMonitorService where
  "afterBreach = monitor (runSweep (Inr (fleetWith 3 0 60)) postOk sampleNow sampleMonitor)"

definition afterRepeat :: HealthMonitorService where
  "afterRepeat =
     monitor (runSweep (Inr (fleetWith 3 0 60)) postOk (sampleNow + 300000) afterBreach)"

definition afterRecovery :: HealthMonitorService where
  "afterRecovery =
     monitor (runSweep (Inr (fleetWith 0 0 80)) postOk (sampleNow + 600000) afterRepeat)"

section \<open>Properties\<close>

lemmas sample_defs = sampleConfig_def sampleSummary_def sampleAlerts_def sampleFleet_def
  fleetWith_def fleetCost_def sampleMonitor_def longWindowMonitor_def sampleNow_def
  DEFAULT_THRESHOLDS_def postOk_def postFails_def burstFleet_def sampleQueueEvent_def

subsection \<open>The constructor\<close>

text \<open>The two sample monitors are what the constructor builds, set running.\<close>

lemma sampleMonitor_constructed:
  "new_HealthMonitorService sampleConfig None = Some (sampleMonitor\<lparr>running := False\<rparr>)"
  by (simp add: new_HealthMonitorService_def mergeThresholds_def sampleMonitor_def)

lemma longWindowMonitor_constructed:
  "new_HealthMonitorService sampleConfig (Some longWindow)
     = Some (longWindowMonitor\<lparr>running := False\<rparr>)"
  by (simp add: new_HealthMonitorService_def mergeThresholds_def longWindowMonitor_def
      longWindow_def DEFAULT_THRESHOLDS_def)

text \<open>A key present with \<^verbatim>\<open>undefined\<close> gives no monitor of this embedding.\<close>

lemma new_HealthMonitorService_undefined:
  "new_HealthMonitorService cfg (Some (t\<lparr>degradedSuppressionMins_entry := Undefined\<rparr>)) = None"
  by (simp add: new_HealthMonitorService_def mergeThresholds_def
      split: option.splits prod.splits)

subsection \<open>Dates\<close>

lemma toISOString_newDate:
  "toISOString (newDate ms) = (if \<bar>ms\<bar> \<le> maxTimeValue then Inr ms else Inl RangeError)"
  by (simp add: toISOString_def newDate_def)

subsection \<open>The instance check\<close>

lemma checkInstanceHealth_frame:
  assumes "checkInstanceHealth now fleet this = (this', r)"
  shows "this' = this\<lparr>suppressedInstances := suppressedInstances this'\<rparr>"
  using assms
  by (auto simp: checkInstanceHealth_def Let_def toISOString_newDate split: if_splits)

lemma checkInstanceHealth_throws:
  assumes "checkInstanceHealth now fleet this = (this', Inl e)"
  shows "this' = this \<and> e = RangeError"
  using assms
  by (auto simp: checkInstanceHealth_def Let_def toISOString_newDate split: if_splits)

lemma checkInstanceHealth_types:
  assumes "checkInstanceHealth now fleet this = (this', Inr events)" and "e \<in> set events"
  shows "(type e = INSTANCE_DEGRADED \<or> type e = PAIR_FAILED) \<and> targetAgent e = Guardian"
  using assms
  by (auto simp: checkInstanceHealth_def Let_def toISOString_newDate split: if_splits)

lemma checkInstanceHealth_returns:
  assumes "\<bar>now + degradedSuppressionMins (thresholds this) * 60000\<bar> \<le> maxTimeValue"
  shows "\<exists>this' events. checkInstanceHealth now fleet this = (this', Inr events)"
  using assms
  by (simp add: checkInstanceHealth_def Let_def toISOString_newDate)

subsection \<open>The provider check\<close>

lemma checkProviderHealth_loop_frame:
  "checkProviderHealth_loop now entries events this = (this', r) \<Longrightarrow>
   this' = this\<lparr>suppressedProviders := suppressedProviders this'\<rparr>"
proof (induction now entries events this rule: checkProviderHealth_loop.induct)
  case (1 now events this)
  then show ?case by simp
next
  case (2 now prov summary rest events this)
  then show ?case
    by (fastforce simp: toISOString_newDate split: if_splits)
qed

lemma checkProviderHealth_loop_types:
  "checkProviderHealth_loop now entries events this = (this', Inr events') \<Longrightarrow>
   \<forall>e \<in> set events. type e = PROVIDER_DEGRADED \<and> targetAgent e = Commander \<Longrightarrow>
   \<forall>e \<in> set events'. type e = PROVIDER_DEGRADED \<and> targetAgent e = Commander"
proof (induction now entries events this rule: checkProviderHealth_loop.induct)
  case (1 now events this)
  then show ?case by simp
next
  case (2 now prov summary rest events this)
  then show ?case
    by (auto simp: toISOString_newDate split: if_splits)
qed

lemma checkProviderHealth_loop_returns:
  "\<bar>now + 3600000\<bar> \<le> maxTimeValue \<Longrightarrow>
   \<exists>this' events'. checkProviderHealth_loop now entries events this = (this', Inr events')"
proof (induction now entries events this rule: checkProviderHealth_loop.induct)
  case (1 now events this)
  then show ?case by simp
next
  case (2 now prov summary rest events this)
  then show ?case
    by (simp add: toISOString_newDate)
qed

lemma checkProviderHealth_loop_throws:
  "checkProviderHealth_loop now entries events this = (this', Inl e) \<Longrightarrow> e = RangeError"
proof (induction now entries events this rule: checkProviderHealth_loop.induct)
  case (1 now events this)
  then show ?case by simp
next
  case (2 now prov summary rest events this)
  then show ?case
    by (auto simp: toISOString_newDate split: if_splits)
qed

text \<open>
  With distinct keys, what the loop does to the entry of one provider depends on that
  provider's summary alone.
\<close>

lemma checkProviderHealth_loop_ledger:
  assumes "\<bar>now + 3600000\<bar> \<le> maxTimeValue" and "distinct (map fst entries)"
  shows "suppressedProviders (fst (checkProviderHealth_loop now entries events this)) p =
     (case map_of entries p of
        None \<Rightarrow> suppressedProviders this p
      | Some s \<Rightarrow>
          if healthScore s < providerDegradedScore (thresholds this)
          then (if notSuppressed (suppressedProviders this p) now
                then Some (now + 3600000) else suppressedProviders this p)
          else None)"
  using assms
proof (induction now entries events this rule: checkProviderHealth_loop.induct)
  case (1 now events this)
  then show ?case by simp
next
  case (2 now prov summary rest events this)
  from "2.prems" have notin: "map_of rest prov = None"
    by (simp add: map_of_eq_None_iff)
  from "2.prems" have d: "distinct (map fst rest)" by simp
  have iso: "toISOString (newDate (now + 60 * 60000)) = Inr (now + 3600000)"
    using "2.prems"(1) by (simp add: toISOString_newDate)
  show ?case
  proof (cases "healthScore summary < providerDegradedScore (thresholds this)")
    case True
    note low = this
    show ?thesis
    proof (cases "notSuppressed (suppressedProviders this prov) now")
      case True
      have "suppressedProviders (fst (checkProviderHealth_loop now ((prov, summary) # rest) events this)) p
            = suppressedProviders (fst (checkProviderHealth_loop now rest
                (events @
                         [\<lparr>eventId = Evt now (''provider-'' @ prov),
                           type = PROVIDER_DEGRADED,
                           priority = (if healthScore summary < 50 then Critical else High),
                           timestamp = now, targetAgent = Commander,
                           payload = ProviderPayload prov (healthScore summary)
                                       (active summary) (degraded summary),
                           suppressUntil = Some (now + 3600000)\<rparr>])
                (this\<lparr>suppressedProviders := (suppressedProviders this)(prov \<mapsto> now + 3600000)\<rparr>))) p"
        using low True iso by simp
      also note "2.IH"(1)[OF low True iso "2.prems"(1) d]
      finally have eq: "suppressedProviders (fst (checkProviderHealth_loop now ((prov, summary) # rest) events this)) p = (case map_of rest p of
        None \<Rightarrow> suppressedProviders (this\<lparr>suppressedProviders := (suppressedProviders this)(prov \<mapsto> now + 3600000)\<rparr>) p
      | Some s \<Rightarrow>
          if healthScore s < providerDegradedScore (thresholds (this\<lparr>suppressedProviders := (suppressedProviders this)(prov \<mapsto> now + 3600000)\<rparr>))
          then (if notSuppressed (suppressedProviders (this\<lparr>suppressedProviders := (suppressedProviders this)(prov \<mapsto> now + 3600000)\<rparr>) p) now
                then Some (now + 3600000) else suppressedProviders (this\<lparr>suppressedProviders := (suppressedProviders this)(prov \<mapsto> now + 3600000)\<rparr>) p)
          else None)" .
      show ?thesis
        unfolding eq using low True notin by (cases "p = prov") (simp_all split: option.splits)
    next
      case False
      have "suppressedProviders (fst (checkProviderHealth_loop now ((prov, summary) # rest) events this)) p
            = suppressedProviders (fst (checkProviderHealth_loop now rest events this)) p"
        using low False by simp
      then show ?thesis
        using low False notin "2.IH"(2)[OF low False "2.prems"(1) d]
        by (cases "p = prov") (simp_all split: option.splits)
    qed
  next
    case False
    have "suppressedProviders (fst (checkProviderHealth_loop now ((prov, summary) # rest) events this)) p
          = suppressedProviders (fst (checkProviderHealth_loop now rest events
               (this\<lparr>suppressedProviders := (suppressedProviders this)(prov := None)\<rparr>))) p"
      using False by simp
    then show ?thesis
      using False notin "2.IH"(3)[OF False "2.prems"(1) d]
      by (cases "p = prov") (simp_all split: option.splits)
  qed
qed


lemma aboutProvider_event [simp]:
  "aboutProvider p (providerDegradedEvent now prov summary) = (prov = p)"
  by (simp add: aboutProvider_def providerDegradedEvent_def)

lemma checkProviderHealth_loop_events:
  assumes "\<bar>now + 3600000\<bar> \<le> maxTimeValue" and "distinct (map fst entries)"
  shows "\<exists>new. snd (checkProviderHealth_loop now entries events this) = Inr (events @ new)
           \<and> filter (aboutProvider p) new =
               (case map_of entries p of
                  None \<Rightarrow> []
                | Some s \<Rightarrow>
                    if healthScore s < providerDegradedScore (thresholds this)
                       \<and> notSuppressed (suppressedProviders this p) now
                    then [providerDegradedEvent now p s] else [])"
  using assms
proof (induction now entries events this rule: checkProviderHealth_loop.induct)
  case (1 now events this)
  then show ?case by simp
next
  case (2 now prov summary rest events this)
  from "2.prems" have notin: "map_of rest prov = None"
    by (simp add: map_of_eq_None_iff)
  from "2.prems" have d: "distinct (map fst rest)" by simp
  have iso: "toISOString (newDate (now + 60 * 60000)) = Inr (now + 3600000)"
    using "2.prems"(1) by (simp add: toISOString_newDate)
  show ?case
  proof (cases "healthScore summary < providerDegradedScore (thresholds this)")
    case True
    note low = this
    show ?thesis
    proof (cases "notSuppressed (suppressedProviders this prov) now")
      case True
      from "2.IH"(1)[OF low True iso "2.prems"(1) d] obtain new where
        new: "snd (checkProviderHealth_loop now rest
                (events @
                         [\<lparr>eventId = Evt now (''provider-'' @ prov),
                           type = PROVIDER_DEGRADED,
                           priority = (if healthScore summary < 50 then Critical else High),
                           timestamp = now, targetAgent = Commander,
                           payload = ProviderPayload prov (healthScore summary)
                                       (active summary) (degraded summary),
                           suppressUntil = Some (now + 3600000)\<rparr>])
                (this\<lparr>suppressedProviders := (suppressedProviders this)(prov \<mapsto> now + 3600000)\<rparr>))
              = Inr ((events @ [providerDegradedEvent now prov summary]) @ new)"
        and flt: "filter (aboutProvider p) new =
               (case map_of rest p of
                  None \<Rightarrow> []
                | Some s \<Rightarrow>
                    if healthScore s < providerDegradedScore (thresholds this)
                       \<and> notSuppressed (((suppressedProviders this)(prov \<mapsto> now + 3600000)) p) now
                    then [providerDegradedEvent now p s] else [])"
        by (auto simp: providerDegradedEvent_def cong: option.case_cong)
      have "snd (checkProviderHealth_loop now ((prov, summary) # rest) events this)
              = Inr (events @ (providerDegradedEvent now prov summary # new))"
        using low True iso new by simp
      moreover have "filter (aboutProvider p) (providerDegradedEvent now prov summary # new) =
               (case map_of ((prov, summary) # rest) p of
                  None \<Rightarrow> []
                | Some s \<Rightarrow>
                    if healthScore s < providerDegradedScore (thresholds this)
                       \<and> notSuppressed (suppressedProviders this p) now
                    then [providerDegradedEvent now p s] else [])"
        using low True notin flt by (cases "p = prov") (simp_all split: option.splits)
      ultimately show ?thesis by blast
    next
      case False
      from "2.IH"(2)[OF low False "2.prems"(1) d] obtain new where
        new: "snd (checkProviderHealth_loop now rest events this) = Inr (events @ new)"
        and flt: "filter (aboutProvider p) new =
               (case map_of rest p of
                  None \<Rightarrow> []
                | Some s \<Rightarrow>
                    if healthScore s < providerDegradedScore (thresholds this)
                       \<and> notSuppressed (suppressedProviders this p) now
                    then [providerDegradedEvent now p s] else [])"
        by (auto cong: option.case_cong)
      have "snd (checkProviderHealth_loop now ((prov, summary) # rest) events this)
              = Inr (events @ new)"
        using low False new by simp
      moreover have "filter (aboutProvider p) new =
               (case map_of ((prov, summary) # rest) p of
                  None \<Rightarrow> []
                | Some s \<Rightarrow>
                    if healthScore s < providerDegradedScore (thresholds this)
                       \<and> notSuppressed (suppressedProviders this p) now
                    then [providerDegradedEvent now p s] else [])"
        using low False notin flt by (cases "p = prov") (simp_all split: option.splits)
      ultimately show ?thesis by blast
    qed
  next
    case False
    from "2.IH"(3)[OF False "2.prems"(1) d] obtain new where
      new: "snd (checkProviderHealth_loop now rest events
                   (this\<lparr>suppressedProviders := (suppressedProviders this)(prov := None)\<rparr>))
              = Inr (events @ new)"
      and flt: "filter (aboutProvider p) new =
               (case map_of rest p of
                  None \<Rightarrow> []
                | Some s \<Rightarrow>
                    if healthScore s < providerDegradedScore (thresholds this)
                       \<and> notSuppressed (((suppressedProviders this)(prov := None)) p) now
                    then [providerDegradedEvent now p s] else [])"
      by (auto cong: option.case_cong)
    have "snd (checkProviderHealth_loop now ((prov, summary) # rest) events this)
              = Inr (events @ new)"
      using False new by simp
    moreover have "filter (aboutProvider p) new =
               (case map_of ((prov, summary) # rest) p of
                  None \<Rightarrow> []
                | Some s \<Rightarrow>
                    if healthScore s < providerDegradedScore (thresholds this)
                       \<and> notSuppressed (suppressedProviders this p) now
                    then [providerDegradedEvent now p s] else [])"
      using False notin flt by (cases "p = prov") (simp_all split: option.splits)
    ultimately show ?thesis by blast
  qed
qed


subsection \<open>The sweep\<close>

lemma checkInstanceHealth_fields:
  assumes "checkInstanceHealth now fleet this = (this', r)"
  shows "thresholds this' = thresholds this" and "config this' = config this"
    and "running this' = running this" and "pollTimer this' = pollTimer this"
    and "suppressedProviders this' = suppressedProviders this"
    and "lastKnownState this' = lastKnownState this"
  using checkInstanceHealth_frame[OF assms]
  by (metis HealthMonitorService.select_convs HealthMonitorService.surjective HealthMonitorService.update_convs)+

lemma checkProviderHealth_fields:
  assumes "checkProviderHealth now fleet this = (this', r)"
  shows "thresholds this' = thresholds this" and "config this' = config this"
    and "running this' = running this" and "pollTimer this' = pollTimer this"
    and "suppressedInstances this' = suppressedInstances this"
    and "lastKnownState this' = lastKnownState this"
  using checkProviderHealth_loop_frame[OF assms[unfolded checkProviderHealth_def]]
  by (metis HealthMonitorService.select_convs HealthMonitorService.surjective HealthMonitorService.update_convs)+

lemma checkCostAnomaly_cong:
  "thresholds this' = thresholds this \<Longrightarrow>
   checkCostAnomaly now fleet this' = checkCostAnomaly now fleet this"
  by (simp add: checkCostAnomaly_def)

lemma checkProvisionQueue_cong:
  "thresholds this' = thresholds this \<Longrightarrow>
   checkProvisionQueue now fleet this' = checkProvisionQueue now fleet this"
  by (simp add: checkProvisionQueue_def)

lemma checkFleetRecovery_cong:
  "lastKnownState this' = lastKnownState this \<Longrightarrow>
   checkFleetRecovery now fleet this' = checkFleetRecovery now fleet this"
  by (simp add: checkFleetRecovery_def)

lemma runSweep_returns:
  assumes "expiriesRepresentable now this"
  obtains this1 instanceEvents this2 providerEvents where
    "checkInstanceHealth now fleet this = (this1, Inr instanceEvents)"
    and "checkProviderHealth now fleet this1 = (this2, Inr providerEvents)"
    and "thrown (runSweep (Inr fleet) post now this) = None"
    and "emitted (runSweep (Inr fleet) post now this) =
           instanceEvents @ toList (checkCostAnomaly now fleet this)
           @ toList (checkProvisionQueue now fleet this) @ providerEvents
           @ toList (checkFleetRecovery now fleet this)"
    and "monitor (runSweep (Inr fleet) post now this) = this2\<lparr>lastKnownState := Some fleet\<rparr>"
proof -
  from assms obtain this1 instanceEvents where
    i: "checkInstanceHealth now fleet this = (this1, Inr instanceEvents)"
    using checkInstanceHealth_returns[of now this fleet]
    by (auto simp: expiriesRepresentable_def)
  from assms obtain this2 providerEvents where
    p: "checkProviderHealth now fleet this1 = (this2, Inr providerEvents)"
    using checkProviderHealth_loop_returns[of now "byProvider fleet" "[]" this1]
    by (auto simp: expiriesRepresentable_def checkProviderHealth_def)
  note f1 = checkInstanceHealth_fields[OF i]
  note f2 = checkProviderHealth_fields[OF p]
  have c: "checkCostAnomaly now fleet this1 = checkCostAnomaly now fleet this"
    by (rule checkCostAnomaly_cong) (rule f1)
  have q: "checkProvisionQueue now fleet this1 = checkProvisionQueue now fleet this"
    by (rule checkProvisionQueue_cong) (rule f1)
  have r: "checkFleetRecovery now fleet this2 = checkFleetRecovery now fleet this"
    by (rule checkFleetRecovery_cong) (simp add: f1 f2)
  show thesis
  proof (rule that[OF i p])
    show "thrown (runSweep (Inr fleet) post now this) = None"
      by (simp add: runSweep_def i p Let_def split: prod.splits)
    show "emitted (runSweep (Inr fleet) post now this) =
           instanceEvents @ toList (checkCostAnomaly now fleet this)
           @ toList (checkProvisionQueue now fleet this) @ providerEvents
           @ toList (checkFleetRecovery now fleet this)"
      by (simp add: runSweep_def i p c q r Let_def split: prod.splits)
    show "monitor (runSweep (Inr fleet) post now this) = this2\<lparr>lastKnownState := Some fleet\<rparr>"
      by (simp add: runSweep_def i p Let_def split: prod.splits)
  qed
qed

subsection \<open>Events by type\<close>

lemma ofType_append [simp]: "ofType t (xs @ ys) = ofType t xs @ ofType t ys"
  by (simp add: ofType_def)

lemma ofType_Nil [simp]: "ofType t [] = []"
  by (simp add: ofType_def)

lemma ofType_checkCostAnomaly:
  "ofType t (toList (checkCostAnomaly now fleet this)) =
     (if t = COST_ANOMALY then toList (checkCostAnomaly now fleet this) else [])"
  by (auto simp: ofType_def toList_def checkCostAnomaly_def Let_def)

lemma ofType_checkProvisionQueue:
  "ofType t (toList (checkProvisionQueue now fleet this)) =
     (if t = PROVISION_QUEUE_BACKLOG then toList (checkProvisionQueue now fleet this) else [])"
  by (auto simp: ofType_def toList_def checkProvisionQueue_def Let_def)

lemma ofType_checkFleetRecovery:
  "ofType t (toList (checkFleetRecovery now fleet this)) =
     (if t = FLEET_RECOVERING then toList (checkFleetRecovery now fleet this) else [])"
  by (auto simp: ofType_def toList_def checkFleetRecovery_def split: option.splits)

lemma ofType_checkProviderHealth:
  assumes "checkProviderHealth now fleet this = (this', Inr events)"
  shows "ofType t events = (if t = PROVIDER_DEGRADED then events else [])"
proof -
  have "\<forall>e \<in> set events. type e = PROVIDER_DEGRADED \<and> targetAgent e = Commander"
    using checkProviderHealth_loop_types[OF assms[unfolded checkProviderHealth_def]] by simp
  then show ?thesis
    by (auto simp: ofType_def filter_empty_conv filter_id_conv)
qed

lemma checkInstanceHealth_result:
  assumes "\<bar>now + degradedSuppressionMins (thresholds this) * 60000\<bar> \<le> maxTimeValue"
  shows "checkInstanceHealth now fleet this =
     (if degradedInstances fleet > 0 \<and> notSuppressed (suppressedInstances this ''fleet-degraded'') now
      then (this\<lparr>suppressedInstances := (suppressedInstances this)
                    (''fleet-degraded'' \<mapsto> now + degradedSuppressionMins (thresholds this) * 60000)\<rparr>,
            Inr (instanceDegradedEvent now fleet this
                 # (if failedInstances fleet > 0 then [pairFailedEvent now fleet] else [])))
      else (this, Inr (if failedInstances fleet > 0 then [pairFailedEvent now fleet] else [])))"
  using assms
  by (simp add: checkInstanceHealth_def Let_def toISOString_newDate instanceDegradedEvent_def
      pairFailedEvent_def)

lemma aboutProvider_simps [simp]:
  "\<not> aboutProvider p (instanceDegradedEvent now fleet this)"
  "\<not> aboutProvider p (pairFailedEvent now fleet)"
  by (simp_all add: aboutProvider_def instanceDegradedEvent_def pairFailedEvent_def)

lemma aboutProvider_ofType:
  "filter (aboutProvider p) events = filter (aboutProvider p) (ofType PROVIDER_DEGRADED events)"
  by (induction events) (auto simp: ofType_def aboutProvider_def)

text \<open>What a sweep whose checks do not throw hands to the dispatcher and leaves in the monitor.\<close>

lemma runSweep_summary:
  fixes fleet :: FleetStatusResult and post :: "post_request \<Rightarrow> error + unit"
  assumes ok: "expiriesRepresentable now this"
  defines "r \<equiv> runSweep (Inr fleet) post now this"
  shows "thrown r = None"
    and "lastKnownState (monitor r) = Some fleet"
    and "thresholds (monitor r) = thresholds this"
    and "suppressedInstances (monitor r) =
           (if degradedInstances fleet > 0
               \<and> notSuppressed (suppressedInstances this ''fleet-degraded'') now
            then (suppressedInstances this)
                   (''fleet-degraded'' \<mapsto> now + degradedSuppressionMins (thresholds this) * 60000)
            else suppressedInstances this)"
    and "ofType INSTANCE_DEGRADED (emitted r) =
           (if degradedInstances fleet > 0
               \<and> notSuppressed (suppressedInstances this ''fleet-degraded'') now
            then [instanceDegradedEvent now fleet this] else [])"
    and "ofType PAIR_FAILED (emitted r) =
           (if failedInstances fleet > 0 then [pairFailedEvent now fleet] else [])"
    and "ofType COST_ANOMALY (emitted r) = toList (checkCostAnomaly now fleet this)"
    and "ofType PROVISION_QUEUE_BACKLOG (emitted r) = toList (checkProvisionQueue now fleet this)"
    and "ofType FLEET_RECOVERING (emitted r) = toList (checkFleetRecovery now fleet this)"
    and "ofType INSTANCE_FAILED (emitted r) = []"
    and "ofType FLEET_HEALTHY (emitted r) = []"
proof -
  obtain this1 instanceEvents this2 providerEvents where
    i: "checkInstanceHealth now fleet this = (this1, Inr instanceEvents)"
    and p: "checkProviderHealth now fleet this1 = (this2, Inr providerEvents)"
    and t: "thrown r = None"
    and e: "emitted r = instanceEvents @ toList (checkCostAnomaly now fleet this)
           @ toList (checkProvisionQueue now fleet this) @ providerEvents
           @ toList (checkFleetRecovery now fleet this)"
    and m: "monitor r = this2\<lparr>lastKnownState := Some fleet\<rparr>"
    unfolding r_def by (rule runSweep_returns[OF ok])
  have v: "\<bar>now + degradedSuppressionMins (thresholds this) * 60000\<bar> \<le> maxTimeValue"
    using ok by (simp add: expiriesRepresentable_def)
  note res = i[unfolded checkInstanceHealth_result[OF v]]
  note f2 = checkProviderHealth_fields[OF p]
  note f1 = checkInstanceHealth_fields[OF i]
  note types = ofType_checkCostAnomaly ofType_checkProvisionQueue ofType_checkFleetRecovery
    ofType_checkProviderHealth[OF p]
  show "thrown r = None" by (rule t)
  show "lastKnownState (monitor r) = Some fleet" by (simp add: m)
  show "thresholds (monitor r) = thresholds this" by (simp add: m f1 f2)
  show "suppressedInstances (monitor r) =
           (if degradedInstances fleet > 0
               \<and> notSuppressed (suppressedInstances this ''fleet-degraded'') now
            then (suppressedInstances this)
                   (''fleet-degraded'' \<mapsto> now + degradedSuppressionMins (thresholds this) * 60000)
            else suppressedInstances this)"
    using res by (auto simp: m f2 split: if_splits)
  have ie: "instanceEvents =
      (if degradedInstances fleet > 0 \<and> notSuppressed (suppressedInstances this ''fleet-degraded'') now
       then [instanceDegradedEvent now fleet this] else [])
      @ (if failedInstances fleet > 0 then [pairFailedEvent now fleet] else [])"
    using res by (auto split: if_splits)
  have ty: "type (instanceDegradedEvent now fleet this) = INSTANCE_DEGRADED"
    "type (pairFailedEvent now fleet) = PAIR_FAILED"
    by (simp_all add: instanceDegradedEvent_def pairFailedEvent_def)
  have it: "ofType t instanceEvents =
      (if t = INSTANCE_DEGRADED \<and> degradedInstances fleet > 0
           \<and> notSuppressed (suppressedInstances this ''fleet-degraded'') now
       then [instanceDegradedEvent now fleet this] else [])
      @ (if t = PAIR_FAILED \<and> failedInstances fleet > 0 then [pairFailedEvent now fleet] else [])" for t
    unfolding ie by (auto simp: ofType_def ty)
  show "ofType INSTANCE_DEGRADED (emitted r) =
           (if degradedInstances fleet > 0
               \<and> notSuppressed (suppressedInstances this ''fleet-degraded'') now
            then [instanceDegradedEvent now fleet this] else [])"
    by (simp add: e types it)
  show "ofType PAIR_FAILED (emitted r) =
           (if failedInstances fleet > 0 then [pairFailedEvent now fleet] else [])"
    by (simp add: e types it)
  show "ofType COST_ANOMALY (emitted r) = toList (checkCostAnomaly now fleet this)"
    by (simp add: e types it)
  show "ofType PROVISION_QUEUE_BACKLOG (emitted r) = toList (checkProvisionQueue now fleet this)"
    by (simp add: e types it)
  show "ofType FLEET_RECOVERING (emitted r) = toList (checkFleetRecovery now fleet this)"
    by (simp add: e types it)
  show "ofType INSTANCE_FAILED (emitted r) = []"
    by (simp add: e types it)
  show "ofType FLEET_HEALTHY (emitted r) = []"
    by (simp add: e types it)
qed


lemma runSweep_provider:
  fixes fleet :: FleetStatusResult and post :: "post_request \<Rightarrow> error + unit"
  assumes ok: "expiriesRepresentable now this"
    and dist: "distinct (map fst (byProvider fleet))"
  defines "r \<equiv> runSweep (Inr fleet) post now this"
  shows "suppressedProviders (monitor r) p =
           (case map_of (byProvider fleet) p of
              None \<Rightarrow> suppressedProviders this p
            | Some s \<Rightarrow>
                if healthScore s < providerDegradedScore (thresholds this)
                then (if notSuppressed (suppressedProviders this p) now
                      then Some (now + 3600000) else suppressedProviders this p)
                else None)"
    and "filter (aboutProvider p) (emitted r) =
           (case map_of (byProvider fleet) p of
              None \<Rightarrow> []
            | Some s \<Rightarrow>
                if healthScore s < providerDegradedScore (thresholds this)
                   \<and> notSuppressed (suppressedProviders this p) now
                then [providerDegradedEvent now p s] else [])"
proof -
  obtain this1 instanceEvents this2 providerEvents where
    i: "checkInstanceHealth now fleet this = (this1, Inr instanceEvents)"
    and p: "checkProviderHealth now fleet this1 = (this2, Inr providerEvents)"
    and e: "emitted r = instanceEvents @ toList (checkCostAnomaly now fleet this)
           @ toList (checkProvisionQueue now fleet this) @ providerEvents
           @ toList (checkFleetRecovery now fleet this)"
    and m: "monitor r = this2\<lparr>lastKnownState := Some fleet\<rparr>"
    unfolding r_def by (rule runSweep_returns[OF ok])
  have v: "\<bar>now + 3600000\<bar> \<le> maxTimeValue"
    using ok by (simp add: expiriesRepresentable_def)
  note f1 = checkInstanceHealth_fields[OF i]
  have "suppressedProviders (monitor r) p = suppressedProviders this2 p"
    by (simp add: m)
  also have "\<dots> = suppressedProviders (fst (checkProviderHealth_loop now (byProvider fleet) [] this1)) p"
    using p by (simp add: checkProviderHealth_def)
  also note checkProviderHealth_loop_ledger[OF v dist]
  finally show "suppressedProviders (monitor r) p =
           (case map_of (byProvider fleet) p of
              None \<Rightarrow> suppressedProviders this p
            | Some s \<Rightarrow>
                if healthScore s < providerDegradedScore (thresholds this)
                then (if notSuppressed (suppressedProviders this p) now
                      then Some (now + 3600000) else suppressedProviders this p)
                else None)"
    unfolding f1(1,5) .
  have i': "checkInstanceHealth now fleet this = (this1, Inr instanceEvents)" by (rule i)
  have pd: "ofType PROVIDER_DEGRADED (emitted r) = providerEvents"
  proof -
    have "\<forall>x \<in> set instanceEvents. type x \<noteq> PROVIDER_DEGRADED"
      using checkInstanceHealth_types[OF i'] by fastforce
    then have "ofType PROVIDER_DEGRADED instanceEvents = []"
      by (simp add: ofType_def filter_empty_conv)
    then show ?thesis
      by (simp add: e ofType_checkCostAnomaly ofType_checkProvisionQueue
          ofType_checkFleetRecovery ofType_checkProviderHealth[OF p])
  qed
  from checkProviderHealth_loop_events[OF v dist, of "[]" this1 p] obtain new where
    n: "snd (checkProviderHealth_loop now (byProvider fleet) [] this1) = Inr new"
    and fl: "filter (aboutProvider p) new =
               (case map_of (byProvider fleet) p of
                  None \<Rightarrow> []
                | Some s \<Rightarrow>
                    if healthScore s < providerDegradedScore (thresholds this1)
                       \<and> notSuppressed (suppressedProviders this1 p) now
                    then [providerDegradedEvent now p s] else [])"
    by auto
  from n p have "new = providerEvents"
    by (simp add: checkProviderHealth_def)
  with fl pd show "filter (aboutProvider p) (emitted r) =
           (case map_of (byProvider fleet) p of
              None \<Rightarrow> []
            | Some s \<Rightarrow>
                if healthScore s < providerDegradedScore (thresholds this)
                   \<and> notSuppressed (suppressedProviders this p) now
                then [providerDegradedEvent now p s] else [])"
    unfolding f1(1,5) by (subst aboutProvider_ofType) simp
qed

lemma expiriesRepresentable_cong:
  "thresholds this' = thresholds this \<Longrightarrow>
   expiriesRepresentable now this' = expiriesRepresentable now this"
  by (simp add: expiriesRepresentable_def)

text \<open>The ledgers that a sweep leaves do not depend on the cost summary of the snapshot.\<close>

lemma runSweep_ledgers_cost:
  "suppressedInstances (monitor (runSweep (Inr (fleet\<lparr>cost := c\<rparr>)) post now this))
     = suppressedInstances (monitor (runSweep (Inr fleet) post now this))
   \<and> suppressedProviders (monitor (runSweep (Inr (fleet\<lparr>cost := c\<rparr>)) post now this))
     = suppressedProviders (monitor (runSweep (Inr fleet) post now this))"
proof -
  have i: "checkInstanceHealth now (fleet\<lparr>cost := c\<rparr>) this = checkInstanceHealth now fleet this"
    by (simp add: checkInstanceHealth_def Let_def cong: sum.case_cong if_cong)
  have p: "checkProviderHealth now (fleet\<lparr>cost := c\<rparr>) m = checkProviderHealth now fleet m" for m
    by (simp add: checkProviderHealth_def)
  show ?thesis
    by (simp add: runSweep_def i p Let_def split: prod.splits sum.splits)
qed

text \<open>
  \<open>checkInstanceHealth\<close> has no counterpart of the provider check's delete: a sweep that
  finds no degraded instance leaves the aggregate store as it is.
\<close>

lemma runSweep_aggregate_kept:
  assumes "degradedInstances fleet \<le> 0"
  shows "suppressedInstances (monitor (runSweep (Inr fleet) post now this))
           = suppressedInstances this"
proof -
  obtain this1 r1 where i: "checkInstanceHealth now fleet this = (this1, r1)"
    by (cases "checkInstanceHealth now fleet this")
  obtain this2 r2 where p: "checkProviderHealth now fleet this1 = (this2, r2)"
    by (cases "checkProviderHealth now fleet this1")
  have "this1 = this"
    using i assms by (simp add: checkInstanceHealth_def Let_def)
  moreover have "suppressedInstances this2 = suppressedInstances this1"
    by (rule checkProviderHealth_fields(5)[OF p])
  ultimately show ?thesis
    using i p by (cases r1; cases r2) (simp_all add: runSweep_def Let_def split: prod.splits)
qed

subsection \<open>Targets, and what a sweep never changes\<close>

lemma runSweep_targets:
  "\<forall>e \<in> set (emitted (runSweep fetched post now this)). targetOf (type e) = Some (targetAgent e)"
proof (cases fetched)
  case (Inl e)
  then show ?thesis by (simp add: runSweep_def)
next
  case (Inr fleet)
  obtain this1 r1 where i: "checkInstanceHealth now fleet this = (this1, r1)"
    by (cases "checkInstanceHealth now fleet this")
  obtain this2 r2 where p: "checkProviderHealth now fleet this1 = (this2, r2)"
    by (cases "checkProviderHealth now fleet this1")
  have c: "\<forall>e \<in> set (toList (checkCostAnomaly now fleet this1)).
             targetOf (type e) = Some (targetAgent e)"
    by (simp add: toList_def checkCostAnomaly_def Let_def)
  have q: "\<forall>e \<in> set (toList (checkProvisionQueue now fleet this1)).
             targetOf (type e) = Some (targetAgent e)"
    by (simp add: toList_def checkProvisionQueue_def Let_def)
  have f: "\<forall>e \<in> set (toList (checkFleetRecovery now fleet this2)).
             targetOf (type e) = Some (targetAgent e)"
    by (simp add: toList_def checkFleetRecovery_def split: option.splits)
  show ?thesis
  proof (cases r1)
    case (Inl e)
    then show ?thesis using Inr i by (simp add: runSweep_def)
  next
    case ie: (Inr instanceEvents)
    have t1: "\<forall>e \<in> set instanceEvents. targetOf (type e) = Some (targetAgent e)"
      using checkInstanceHealth_types[OF i[unfolded ie]] by fastforce
    show ?thesis
    proof (cases r2)
      case (Inl e)
      then show ?thesis using Inr i ie p by (simp add: runSweep_def)
    next
      case pe: (Inr providerEvents)
      have t2: "\<forall>e \<in> set providerEvents. targetOf (type e) = Some (targetAgent e)"
        using checkProviderHealth_loop_types[OF p[unfolded pe checkProviderHealth_def]]
        by fastforce
      have "emitted (runSweep fetched post now this) =
              instanceEvents @ toList (checkCostAnomaly now fleet this1)
              @ toList (checkProvisionQueue now fleet this1) @ providerEvents
              @ toList (checkFleetRecovery now fleet this2)"
        using Inr i ie p pe by (simp add: runSweep_def Let_def split: prod.splits)
      then show ?thesis
        using t1 t2 c q f by auto
    qed
  qed
qed

lemma runSweep_fields:
  "thresholds (monitor (runSweep fetched post now this)) = thresholds this"
  "config (monitor (runSweep fetched post now this)) = config this"
  "running (monitor (runSweep fetched post now this)) = running this"
  "pollTimer (monitor (runSweep fetched post now this)) = pollTimer this"
proof -
  have "thresholds (monitor (runSweep fetched post now this)) = thresholds this
      \<and> config (monitor (runSweep fetched post now this)) = config this
      \<and> running (monitor (runSweep fetched post now this)) = running this
      \<and> pollTimer (monitor (runSweep fetched post now this)) = pollTimer this"
  proof (cases fetched)
    case (Inl e)
    then show ?thesis by (simp add: runSweep_def)
  next
    case (Inr fleet)
    obtain this1 r1 where i: "checkInstanceHealth now fleet this = (this1, r1)"
      by (cases "checkInstanceHealth now fleet this")
    obtain this2 r2 where p: "checkProviderHealth now fleet this1 = (this2, r2)"
      by (cases "checkProviderHealth now fleet this1")
    note f1 = checkInstanceHealth_fields[OF i]
    note f2 = checkProviderHealth_fields[OF p]
    show ?thesis
      using Inr i p f1 f2
      by (cases r1; cases r2) (simp_all add: runSweep_def Let_def split: prod.splits)
  qed
  then show "thresholds (monitor (runSweep fetched post now this)) = thresholds this"
    "config (monitor (runSweep fetched post now this)) = config this"
    "running (monitor (runSweep fetched post now this)) = running this"
    "pollTimer (monitor (runSweep fetched post now this)) = pollTimer this"
    by simp_all
qed

lemma tick_targets:
  "\<forall>e \<in> set (emitted (tick fetched post now this)). targetOf (type e) = Some (targetAgent e)"
  using runSweep_targets[of fetched post now this]
  by (simp add: tick_def Let_def)

subsection \<open>The dispatcher\<close>

lemma emitEvent_result:
  "emitEvent post event this =
     Inr (case getSessionId (targetAgent event) this of
            None \<Rightarrow> ([LogEmit (type event) (targetAgent event) (priority event),
                       WarnNoSession (targetAgent event)], [])
          | Some sid \<Rightarrow>
              if sid = []
              then ([LogEmit (type event) (targetAgent event) (priority event),
                     WarnNoSession (targetAgent event)], [])
              else ([LogEmit (type event) (targetAgent event) (priority event)],
                    [requestFor sid event this]))"
proof (cases "getSessionId (targetAgent event) this")
  case None
  then show ?thesis by (simp add: emitEvent_def)
next
  case (Some sid)
  show ?thesis
  proof (cases "sid = []")
    case True
    with Some show ?thesis by (simp add: emitEvent_def)
  next
    case False
    with Some show ?thesis
      by (cases "post (requestFor sid event this)")
         (simp_all add: emitEvent_def requestFor_def)
  qed
qed

lemma getSessionId_config:
  "config this' = config this \<Longrightarrow> getSessionId a this' = getSessionId a this"
  by (cases a) simp_all

lemma emitEvent_config:
  assumes "config this' = config this"
  shows "emitEvent post event this' = emitEvent post event this"
  unfolding emitEvent_result getSessionId_config[OF assms] requestFor_def assms ..

lemma emitAll_config:
  assumes "config this' = config this"
  shows "emitAll post events this' = emitAll post events this"
proof (induction events)
  case Nil
  show ?case by simp
next
  case (Cons event events)
  show ?case
    by (simp add: emitEvent_config[OF assms, of post event] Cons.IH)
qed

lemma emitEvent_returns:
  "\<exists>out. emitEvent post event this = Inr out"
  unfolding emitEvent_result by blast

lemma emitEvent_requests:
  assumes "emitEvent post event this = Inr (ls, rs)" and "request \<in> set rs"
  shows "data request = event
         \<and> (\<exists>sid. getSessionId (targetAgent event) this = Some sid \<and> sid \<noteq> [])"
proof (cases "getSessionId (targetAgent event) this")
  case None
  with assms show ?thesis by (simp add: emitEvent_result)
next
  case (Some sid)
  with assms show ?thesis
    by (cases "sid = []") (auto simp: emitEvent_result requestFor_def)
qed

lemma emitAll_requests:
  "request \<in> set (snd (emitAll post events this)) \<Longrightarrow>
   data request \<in> set events
   \<and> (\<exists>sid. getSessionId (targetAgent (data request)) this = Some sid \<and> sid \<noteq> [])"
proof (induction events)
  case Nil
  then show ?case by simp
next
  case (Cons event events)
  obtain ls rs where o: "emitEvent post event this = Inr (ls, rs)"
    using emitEvent_returns[of post event this] by auto
  obtain ls' rs' where a: "emitAll post events this = (ls', rs')"
    by (cases "emitAll post events this")
  from Cons.prems have "request \<in> set rs \<or> request \<in> set rs'"
    by (simp add: o a)
  then show ?case
  proof
    assume "request \<in> set rs"
    from emitEvent_requests[OF o this] show ?thesis by auto
  next
    assume "request \<in> set rs'"
    with Cons.IH a show ?thesis by auto
  qed
qed

lemma runSweep_posts:
  "posts (runSweep fetched post now this)
     = snd (emitAll post (emitted (runSweep fetched post now this)) this)"
proof (cases fetched)
  case (Inl e)
  then show ?thesis by (simp add: runSweep_def)
next
  case (Inr fleet)
  obtain this1 r1 where i: "checkInstanceHealth now fleet this = (this1, r1)"
    by (cases "checkInstanceHealth now fleet this")
  obtain this2 r2 where p: "checkProviderHealth now fleet this1 = (this2, r2)"
    by (cases "checkProviderHealth now fleet this1")
  have "config this2 = config this"
    using checkInstanceHealth_fields(2)[OF i] checkProviderHealth_fields(2)[OF p] by simp
  then have c: "emitAll post events this2 = emitAll post events this" for events
    by (rule emitAll_config)
  show ?thesis
    using Inr i p
    by (cases r1; cases r2) (simp_all add: runSweep_def Let_def c split: prod.splits)
qed

subsection \<open>Evaluating a sweep on a concrete input\<close>

lemmas eval_defs = runSweep_def checkInstanceHealth_def checkCostAnomaly_def
  checkProvisionQueue_def checkProviderHealth_def checkFleetRecovery_def emitEvent_def
  toList_def notSuppressed_def toISOString_newDate maxTimeValue_def Let_def

lemma sample_threshold_values:
  "thresholds sampleMonitor = DEFAULT_THRESHOLDS"
  "degradedSuppressionMins DEFAULT_THRESHOLDS * 60000 = 1800000"
  "providerDegradedScore DEFAULT_THRESHOLDS = 75"
  by (simp_all add: sample_defs)

text \<open>
  With the default window of 30 minutes, the expiries are valid dates at every clock
  reading from the epoch to one hour before the last valid instant.
\<close>

lemma expiriesRepresentable_default:
  assumes "degradedSuppressionMins (thresholds this) = 30"
    and "0 \<le> now" and "now \<le> maxTimeValue - 3600000"
  shows "expiriesRepresentable now this"
  using assms by (simp add: expiriesRepresentable_def maxTimeValue_def)

lemma expiriesRepresentable_sample:
  assumes "thresholds m = DEFAULT_THRESHOLDS" and "0 \<le> d" and "d \<le> 100000000"
  shows "expiriesRepresentable (sampleNow + d) m"
  using assms
  by (simp add: expiriesRepresentable_def sample_threshold_values sampleNow_def maxTimeValue_def)

lemma byProvider_fleetWith:
  "byProvider (fleetWith d f score) = [(''hetzner'', sampleSummary score)]"
  "degradedInstances (fleetWith d f score) = d"
  "failedInstances (fleetWith d f score) = f"
  by (simp_all add: fleetWith_def)

subsection \<open>The timer callback\<close>

lemma tick_running:
  assumes "running this"
  shows "monitor (tick fetched post now this) = monitor (runSweep fetched post now this)"
    and "emitted (tick fetched post now this) = emitted (runSweep fetched post now this)"
  using assms by (simp_all add: tick_def Let_def)

lemma tick_fields:
  "thresholds (monitor (tick fetched post now this)) = thresholds this"
  "running (monitor (tick fetched post now this)) = running this"
  by (simp_all add: tick_def Let_def runSweep_fields)

text \<open>One timer callback, seen from one provider of the snapshot's provider map.\<close>

lemma tick_provider:
  fixes fleet :: FleetStatusResult and post :: "post_request \<Rightarrow> error + unit"
  assumes run: "running this"
    and ok: "expiriesRepresentable now this"
    and dist: "distinct (map fst (byProvider fleet))"
    and s: "map_of (byProvider fleet) p = Some s"
  defines "r \<equiv> tick (Inr fleet) post now this"
  shows "suppressedProviders (monitor r) p =
           (if healthScore s < providerDegradedScore (thresholds this)
            then (if notSuppressed (suppressedProviders this p) now
                  then Some (now + 3600000) else suppressedProviders this p)
            else None)"
    and "filter (aboutProvider p) (emitted r) =
           (if healthScore s < providerDegradedScore (thresholds this)
               \<and> notSuppressed (suppressedProviders this p) now
            then [providerDegradedEvent now p s] else [])"
  unfolding r_def tick_running[OF run]
  using runSweep_provider[OF ok dist, where post = post and p = p] s by simp_all

subsection \<open>The checks and the sweep, whatever the clock and the window\<close>

lemma checkInstanceHealth_cases:
  "checkInstanceHealth now fleet this =
     (if degradedInstances fleet > 0
         \<and> notSuppressed (suppressedInstances this ''fleet-degraded'') now
      then (if \<bar>now + degradedSuppressionMins (thresholds this) * 60000\<bar> \<le> maxTimeValue
            then (this\<lparr>suppressedInstances := (suppressedInstances this)
                          (''fleet-degraded'' \<mapsto>
                             now + degradedSuppressionMins (thresholds this) * 60000)\<rparr>,
                  Inr (instanceDegradedEvent now fleet this
                       # (if failedInstances fleet > 0 then [pairFailedEvent now fleet] else [])))
            else (this, Inl RangeError))
      else (this, Inr (if failedInstances fleet > 0 then [pairFailedEvent now fleet] else [])))"
  by (simp add: checkInstanceHealth_def Let_def toISOString_newDate instanceDegradedEvent_def
      pairFailedEvent_def)

text \<open>
  When no valid expiry can be computed, a provider loop that returns has found every
  degraded provider suppressed: it pushes no event and sets no entry.
\<close>

lemma checkProviderHealth_loop_invalid:
  assumes "\<not> \<bar>now + 3600000\<bar> \<le> maxTimeValue"
    and "checkProviderHealth_loop now entries events this = (this', Inr events')"
    and "distinct (map fst entries)"
  shows "events' = events
       \<and> suppressedProviders this' p =
           (case map_of entries p of
              None \<Rightarrow> suppressedProviders this p
            | Some s \<Rightarrow>
                if healthScore s < providerDegradedScore (thresholds this)
                then suppressedProviders this p else None)
       \<and> (\<forall>s. map_of entries p = Some s
              \<and> healthScore s < providerDegradedScore (thresholds this)
            \<longrightarrow> \<not> notSuppressed (suppressedProviders this p) now)"
  using assms
proof (induction now entries events this rule: checkProviderHealth_loop.induct)
  case (1 now events this)
  then show ?case by simp
next
  case (2 now prov summary rest events this)
  from "2.prems" have notin: "map_of rest prov = None"
    by (simp add: map_of_eq_None_iff)
  from "2.prems" have d: "distinct (map fst rest)" by simp
  have iso: "toISOString (newDate (now + 60 * 60000)) = Inl RangeError"
    using "2.prems"(1) by (simp add: toISOString_newDate)
  show ?case
  proof (cases "healthScore summary < providerDegradedScore (thresholds this)")
    case True
    note low = this
    show ?thesis
    proof (cases "notSuppressed (suppressedProviders this prov) now")
      case True
      with low iso "2.prems"(2) show ?thesis by simp
    next
      case False
      have r: "checkProviderHealth_loop now rest events this = (this', Inr events')"
        using "2.prems"(2) low False by simp
      from "2.IH"(2)[OF low False "2.prems"(1) r d] low False notin show ?thesis
        by (cases "p = prov") (simp_all split: option.splits)
    qed
  next
    case False
    have r: "checkProviderHealth_loop now rest events
               (this\<lparr>suppressedProviders := (suppressedProviders this)(prov := None)\<rparr>)
             = (this', Inr events')"
      using "2.prems"(2) False by simp
    from "2.IH"(3)[OF False "2.prems"(1) r d] False notin show ?thesis
      by (cases "p = prov") (simp_all split: option.splits)
  qed
qed

text \<open>Whatever the clock, a provider loop that returns has done this to one provider's entry.\<close>

lemma checkProviderHealth_loop_returned:
  assumes r: "checkProviderHealth_loop now entries [] this = (this', Inr events')"
    and dist: "distinct (map fst entries)"
  shows "suppressedProviders this' p =
           (case map_of entries p of
              None \<Rightarrow> suppressedProviders this p
            | Some s \<Rightarrow>
                if healthScore s < providerDegradedScore (thresholds this)
                then (if notSuppressed (suppressedProviders this p) now
                      then Some (now + 3600000) else suppressedProviders this p)
                else None)"
proof (cases "\<bar>now + 3600000\<bar> \<le> maxTimeValue")
  case True
  from checkProviderHealth_loop_ledger[OF True dist, of "[]" this p] r show ?thesis
    by simp
next
  case False
  from checkProviderHealth_loop_invalid[OF False r dist, of p] show ?thesis
    by (auto split: option.splits)
qed


text \<open>Sweeps that throw, sweeps that return.\<close>

lemma runSweep_thrown:
  assumes "thrown (runSweep fetched post now this) = Some e"
  shows "emitted (runSweep fetched post now this) = []"
    and "posts (runSweep fetched post now this) = []"
    and "lastKnownState (monitor (runSweep fetched post now this)) = lastKnownState this"
    and "logs (runSweep fetched post now this) = [DebugRunningSweep]"
proof -
  have "emitted (runSweep fetched post now this) = []
      \<and> posts (runSweep fetched post now this) = []
      \<and> lastKnownState (monitor (runSweep fetched post now this)) = lastKnownState this
      \<and> logs (runSweep fetched post now this) = [DebugRunningSweep]"
  proof (cases fetched)
    case (Inl x)
    with assms show ?thesis by (simp add: runSweep_def)
  next
    case (Inr fleet)
    obtain this1 r1 where i: "checkInstanceHealth now fleet this = (this1, r1)"
      by (cases "checkInstanceHealth now fleet this")
    obtain this2 r2 where p: "checkProviderHealth now fleet this1 = (this2, r2)"
      by (cases "checkProviderHealth now fleet this1")
    note f1 = checkInstanceHealth_fields(6)[OF i]
    note f2 = checkProviderHealth_fields(6)[OF p]
    show ?thesis
      using assms Inr i p f1 f2
      by (cases r1; cases r2) (simp_all add: runSweep_def Let_def split: prod.splits)
  qed
  then show "emitted (runSweep fetched post now this) = []"
    and "posts (runSweep fetched post now this) = []"
    and "lastKnownState (monitor (runSweep fetched post now this)) = lastKnownState this"
    and "logs (runSweep fetched post now this) = [DebugRunningSweep]"
    by simp_all
qed

lemma runSweep_instance_throws:
  assumes "checkInstanceHealth now fleet this = (this', Inl e)"
  shows "runSweep (Inr fleet) post now this =
           \<lparr>monitor = this, thrown = Some e, emitted = [], posts = [],
            logs = [DebugRunningSweep]\<rparr>"
  using assms checkInstanceHealth_throws[OF assms] by (simp add: runSweep_def)

lemma runSweep_provider_throws:
  assumes "checkInstanceHealth now fleet this = (this1, Inr events)"
    and "checkProviderHealth now fleet this1 = (this2, Inl e)"
  shows "runSweep (Inr fleet) post now this =
           \<lparr>monitor = this2, thrown = Some e, emitted = [], posts = [],
            logs = [DebugRunningSweep]\<rparr>"
  using assms by (simp add: runSweep_def Let_def)

lemma runSweep_window_throws:
  assumes "degradedInstances fleet > 0"
    and "notSuppressed (suppressedInstances this ''fleet-degraded'') now"
    and "\<not> \<bar>now + degradedSuppressionMins (thresholds this) * 60000\<bar> \<le> maxTimeValue"
  shows "runSweep (Inr fleet) post now this =
           \<lparr>monitor = this, thrown = Some RangeError, emitted = [], posts = [],
            logs = [DebugRunningSweep]\<rparr>"
  by (rule runSweep_instance_throws[of now fleet this this])
     (simp add: checkInstanceHealth_cases assms)

lemma runSweep_returned:
  assumes "thrown (runSweep (Inr fleet) post now this) = None"
  obtains this1 instanceEvents this2 providerEvents where
    "checkInstanceHealth now fleet this = (this1, Inr instanceEvents)"
    and "checkProviderHealth now fleet this1 = (this2, Inr providerEvents)"
    and "emitted (runSweep (Inr fleet) post now this) =
           instanceEvents @ toList (checkCostAnomaly now fleet this)
           @ toList (checkProvisionQueue now fleet this) @ providerEvents
           @ toList (checkFleetRecovery now fleet this)"
    and "monitor (runSweep (Inr fleet) post now this) = this2\<lparr>lastKnownState := Some fleet\<rparr>"
proof -
  obtain this1 r1 where i: "checkInstanceHealth now fleet this = (this1, r1)"
    by (cases "checkInstanceHealth now fleet this")
  obtain this2 r2 where p: "checkProviderHealth now fleet this1 = (this2, r2)"
    by (cases "checkProviderHealth now fleet this1")
  from assms i obtain instanceEvents where ie: "r1 = Inr instanceEvents"
    by (cases r1) (simp_all add: runSweep_def)
  from assms i p ie obtain providerEvents where pe: "r2 = Inr providerEvents"
    by (cases r2) (simp_all add: runSweep_def Let_def)
  note f1 = checkInstanceHealth_fields[OF i]
  note f2 = checkProviderHealth_fields[OF p]
  have c: "checkCostAnomaly now fleet this1 = checkCostAnomaly now fleet this"
    by (rule checkCostAnomaly_cong) (rule f1)
  have q: "checkProvisionQueue now fleet this1 = checkProvisionQueue now fleet this"
    by (rule checkProvisionQueue_cong) (rule f1)
  have r: "checkFleetRecovery now fleet this2 = checkFleetRecovery now fleet this"
    by (rule checkFleetRecovery_cong) (simp add: f1 f2)
  show thesis
  proof (rule that[OF i[unfolded ie] p[unfolded pe]])
    show "emitted (runSweep (Inr fleet) post now this) =
           instanceEvents @ toList (checkCostAnomaly now fleet this)
           @ toList (checkProvisionQueue now fleet this) @ providerEvents
           @ toList (checkFleetRecovery now fleet this)"
      by (simp add: runSweep_def i ie p pe c q r Let_def split: prod.splits)
    show "monitor (runSweep (Inr fleet) post now this) = this2\<lparr>lastKnownState := Some fleet\<rparr>"
      by (simp add: runSweep_def i ie p pe Let_def split: prod.splits)
  qed
qed

text \<open>What a sweep that does not throw has emitted and done to the ledgers.\<close>

lemma runSweep_summary_returned:
  fixes fleet :: FleetStatusResult and post :: "post_request \<Rightarrow> error + unit"
    and now :: int and this :: HealthMonitorService
  defines "r \<equiv> runSweep (Inr fleet) post now this"
  assumes ok: "thrown r = None"
  shows "suppressedInstances (monitor r) =
           (if degradedInstances fleet > 0
               \<and> notSuppressed (suppressedInstances this ''fleet-degraded'') now
            then (suppressedInstances this)
                   (''fleet-degraded'' \<mapsto> now + degradedSuppressionMins (thresholds this) * 60000)
            else suppressedInstances this)"
    and "ofType INSTANCE_DEGRADED (emitted r) =
           (if degradedInstances fleet > 0
               \<and> notSuppressed (suppressedInstances this ''fleet-degraded'') now
            then [instanceDegradedEvent now fleet this] else [])"
    and "ofType PAIR_FAILED (emitted r) =
           (if failedInstances fleet > 0 then [pairFailedEvent now fleet] else [])"
    and "distinct (map fst (byProvider fleet)) \<Longrightarrow>
         suppressedProviders (monitor r) p =
           (case map_of (byProvider fleet) p of
              None \<Rightarrow> suppressedProviders this p
            | Some s \<Rightarrow>
                if healthScore s < providerDegradedScore (thresholds this)
                then (if notSuppressed (suppressedProviders this p) now
                      then Some (now + 3600000) else suppressedProviders this p)
                else None)"
proof -
  obtain this1 instanceEvents this2 providerEvents where
    i: "checkInstanceHealth now fleet this = (this1, Inr instanceEvents)"
    and p: "checkProviderHealth now fleet this1 = (this2, Inr providerEvents)"
    and e: "emitted r = instanceEvents @ toList (checkCostAnomaly now fleet this)
           @ toList (checkProvisionQueue now fleet this) @ providerEvents
           @ toList (checkFleetRecovery now fleet this)"
    and m: "monitor r = this2\<lparr>lastKnownState := Some fleet\<rparr>"
    using ok unfolding r_def by (rule runSweep_returned)
  note res = i[unfolded checkInstanceHealth_cases]
  note f1 = checkInstanceHealth_fields[OF i]
  note f2 = checkProviderHealth_fields[OF p]
  note types = ofType_checkCostAnomaly ofType_checkProvisionQueue ofType_checkFleetRecovery
    ofType_checkProviderHealth[OF p]
  show "suppressedInstances (monitor r) =
           (if degradedInstances fleet > 0
               \<and> notSuppressed (suppressedInstances this ''fleet-degraded'') now
            then (suppressedInstances this)
                   (''fleet-degraded'' \<mapsto> now + degradedSuppressionMins (thresholds this) * 60000)
            else suppressedInstances this)"
    using res by (auto simp: m f2 split: if_splits)
  have ie: "instanceEvents =
      (if degradedInstances fleet > 0 \<and> notSuppressed (suppressedInstances this ''fleet-degraded'') now
       then [instanceDegradedEvent now fleet this] else [])
      @ (if failedInstances fleet > 0 then [pairFailedEvent now fleet] else [])"
    using res by (auto split: if_splits)
  have ty: "type (instanceDegradedEvent now fleet this) = INSTANCE_DEGRADED"
    "type (pairFailedEvent now fleet) = PAIR_FAILED"
    by (simp_all add: instanceDegradedEvent_def pairFailedEvent_def)
  have it: "ofType t instanceEvents =
      (if t = INSTANCE_DEGRADED \<and> degradedInstances fleet > 0
           \<and> notSuppressed (suppressedInstances this ''fleet-degraded'') now
       then [instanceDegradedEvent now fleet this] else [])
      @ (if t = PAIR_FAILED \<and> failedInstances fleet > 0 then [pairFailedEvent now fleet] else [])" for t
    unfolding ie by (auto simp: ofType_def ty)
  show "ofType INSTANCE_DEGRADED (emitted r) =
           (if degradedInstances fleet > 0
               \<and> notSuppressed (suppressedInstances this ''fleet-degraded'') now
            then [instanceDegradedEvent now fleet this] else [])"
    by (simp add: e types it)
  show "ofType PAIR_FAILED (emitted r) =
           (if failedInstances fleet > 0 then [pairFailedEvent now fleet] else [])"
    by (simp add: e types it)
  show "suppressedProviders (monitor r) p =
           (case map_of (byProvider fleet) p of
              None \<Rightarrow> suppressedProviders this p
            | Some s \<Rightarrow>
                if healthScore s < providerDegradedScore (thresholds this)
                then (if notSuppressed (suppressedProviders this p) now
                      then Some (now + 3600000) else suppressedProviders this p)
                else None)"
    if dist: "distinct (map fst (byProvider fleet))"
  proof -
    have "suppressedProviders (monitor r) p = suppressedProviders this2 p"
      by (simp add: m)
    also note checkProviderHealth_loop_returned[OF p[unfolded checkProviderHealth_def] dist, of p]
    finally show ?thesis
      unfolding f1(1,5) .
  qed
qed

lemma runSweep_not_thrown:
  "expiriesRepresentable now this \<Longrightarrow> thrown (runSweep (Inr fleet) post now this) = None"
  by (rule runSweep_summary(1))

lemma runSweep_aggregate_unchanged:
  assumes "\<not> (degradedInstances fleet > 0
              \<and> notSuppressed (suppressedInstances this ''fleet-degraded'') now)"
  shows "suppressedInstances (monitor (runSweep (Inr fleet) post now this))
           = suppressedInstances this"
proof -
  obtain this1 r1 where i: "checkInstanceHealth now fleet this = (this1, r1)"
    by (cases "checkInstanceHealth now fleet this")
  obtain this2 r2 where p: "checkProviderHealth now fleet this1 = (this2, r2)"
    by (cases "checkProviderHealth now fleet this1")
  have "this1 = this"
    using i assms by (auto simp: checkInstanceHealth_cases)
  moreover have "suppressedInstances this2 = suppressedInstances this1"
    by (rule checkProviderHealth_fields(5)[OF p])
  ultimately show ?thesis
    using i p by (cases r1; cases r2) (simp_all add: runSweep_def Let_def split: prod.splits)
qed

lemma longWindowMonitor_values:
  "suppressedInstances longWindowMonitor = Map.empty"
  "suppressedProviders longWindowMonitor = Map.empty"
  "degradedSuppressionMins (thresholds longWindowMonitor) * 60000 = 60000000000000000"
  "\<not> \<bar>sampleNow + 60000000000000000\<bar> \<le> maxTimeValue"
  "running longWindowMonitor"
  "lastKnownState longWindowMonitor = None"
  by (simp_all add: sample_defs maxTimeValue_def)

section \<open>The claims\<close>

text \<open>
  C1. Lifecycle of the suppression ledger. As claimed (created at the first breach,
  refreshed at each repeated breach while still suppressed, deleted when the condition
  clears, for both stores) this does not hold. A repeated breach inside the window leaves
  the expiry as it is, in both stores: five minutes after the first breach the expiries are
  still the first sweep's. And the aggregate key is not deleted by a sweep that finds no
  degraded instance: its entry is still there after the recovery, and suppresses the alert
  of a fleet that degrades again inside the old window.
\<close>

theorem ledger_lifecycle_counterexample:
  "suppressedInstances afterBreach ''fleet-degraded'' = Some (sampleNow + 1800000)
   \<and> suppressedProviders afterBreach ''hetzner'' = Some (sampleNow + 3600000)
   \<and> suppressedInstances afterRepeat ''fleet-degraded'' = Some (sampleNow + 1800000)
   \<and> suppressedInstances afterRepeat ''fleet-degraded''
       \<noteq> Some (sampleNow + 300000 + 1800000)
   \<and> suppressedProviders afterRepeat ''hetzner'' = Some (sampleNow + 3600000)
   \<and> suppressedProviders afterRepeat ''hetzner'' \<noteq> Some (sampleNow + 300000 + 3600000)
   \<and> degradedInstances (fleetWith 0 0 80) = 0
   \<and> suppressedInstances afterRecovery ''fleet-degraded'' = Some (sampleNow + 1800000)
   \<and> suppressedInstances afterRecovery ''fleet-degraded'' \<noteq> None
   \<and> ofType INSTANCE_DEGRADED
        (emitted (runSweep (Inr (fleetWith 3 0 80)) postOk (sampleNow + 900000) afterRecovery))
       = []"
proof -
  have e0: "suppressedInstances sampleMonitor = Map.empty"
    "suppressedProviders sampleMonitor = Map.empty"
    by (simp_all add: sample_defs)
  have t0: "thresholds sampleMonitor = DEFAULT_THRESHOLDS"
    by (rule sample_threshold_values)
  have t1: "thresholds afterBreach = DEFAULT_THRESHOLDS"
    unfolding afterBreach_def by (simp add: runSweep_fields t0)
  have t2: "thresholds afterRepeat = DEFAULT_THRESHOLDS"
    unfolding afterRepeat_def by (simp add: runSweep_fields t1)
  have t3: "thresholds afterRecovery = DEFAULT_THRESHOLDS"
    unfolding afterRecovery_def by (simp add: runSweep_fields t2)
  have ok0: "expiriesRepresentable sampleNow sampleMonitor"
    using expiriesRepresentable_sample[OF t0, of 0] by simp
  have ok1: "expiriesRepresentable (sampleNow + 300000) afterBreach"
    by (rule expiriesRepresentable_sample[OF t1]) simp_all
  have ok2: "expiriesRepresentable (sampleNow + 600000) afterRepeat"
    by (rule expiriesRepresentable_sample[OF t2]) simp_all
  have ok3: "expiriesRepresentable (sampleNow + 900000) afterRecovery"
    by (rule expiriesRepresentable_sample[OF t3]) simp_all
  have d: "distinct (map fst (byProvider (fleetWith a b c)))" for a b c
    by (simp add: byProvider_fleetWith)
  have i1: "suppressedInstances afterBreach ''fleet-degraded'' = Some (sampleNow + 1800000)"
    unfolding afterBreach_def
    by (simp add: runSweep_summary(4)[OF ok0] byProvider_fleetWith e0 notSuppressed_def
        sample_threshold_values)
  have p1: "suppressedProviders afterBreach ''hetzner'' = Some (sampleNow + 3600000)"
    unfolding afterBreach_def
    by (simp add: runSweep_provider(1)[OF ok0 d] byProvider_fleetWith e0 notSuppressed_def
        sample_threshold_values sampleSummary_def)
  have i2: "suppressedInstances afterRepeat ''fleet-degraded'' = Some (sampleNow + 1800000)"
    unfolding afterRepeat_def
    by (simp add: runSweep_summary(4)[OF ok1] byProvider_fleetWith i1 notSuppressed_def t1
        sample_threshold_values)
  have p2: "suppressedProviders afterRepeat ''hetzner'' = Some (sampleNow + 3600000)"
    unfolding afterRepeat_def
    by (simp add: runSweep_provider(1)[OF ok1 d] byProvider_fleetWith p1 notSuppressed_def t1
        sample_threshold_values sampleSummary_def)
  have i3: "suppressedInstances afterRecovery ''fleet-degraded'' = Some (sampleNow + 1800000)"
    unfolding afterRecovery_def
    by (simp add: runSweep_summary(4)[OF ok2] byProvider_fleetWith i2)
  have e4: "ofType INSTANCE_DEGRADED
        (emitted (runSweep (Inr (fleetWith 3 0 80)) postOk (sampleNow + 900000) afterRecovery))
       = []"
    by (simp add: runSweep_summary(5)[OF ok3] byProvider_fleetWith i3 notSuppressed_def)
  show ?thesis
    using i1 p1 i2 p2 i3 e4 by (simp add: byProvider_fleetWith)
qed

text \<open>
  C1, as the code has it by design. In a sweep that does not throw: when it finds degraded
  instances, an absent aggregate entry is created with expiry now plus the configured
  window, an entry that has not expired is left as it is, and an expired entry is set to
  now plus the window again; for each provider of the snapshot's provider map (an object,
  so its keys are distinct) with a health score below the floor the same holds of its entry,
  with a window of one hour, and the entry of a provider at or above the floor is deleted.
  A sweep does not throw when the expiries it may compute are valid dates. A sweep that
  finds degraded instances, the aggregate entry absent or expired, and now plus the window
  not a valid date, throws a RangeError and leaves the monitor as it was.
\<close>

theorem ledger_lifecycle:
  assumes dist: "distinct (map fst (byProvider fleet))"
  shows "(thrown (runSweep (Inr fleet) post now this) = None \<and> degradedInstances fleet > 0 \<longrightarrow>
            suppressedInstances (monitor (runSweep (Inr fleet) post now this)) ''fleet-degraded''
              = (case suppressedInstances this ''fleet-degraded'' of
                   None \<Rightarrow> Some (now + degradedSuppressionMins (thresholds this) * 60000)
                 | Some u \<Rightarrow>
                     if now > u
                     then Some (now + degradedSuppressionMins (thresholds this) * 60000)
                     else Some u))
       \<and> (thrown (runSweep (Inr fleet) post now this) = None \<longrightarrow>
            (\<forall>s. map_of (byProvider fleet) p = Some s \<longrightarrow>
               suppressedProviders (monitor (runSweep (Inr fleet) post now this)) p
                 = (if healthScore s < providerDegradedScore (thresholds this)
                    then (case suppressedProviders this p of
                            None \<Rightarrow> Some (now + 3600000)
                          | Some u \<Rightarrow> if now > u then Some (now + 3600000) else Some u)
                    else None)))
       \<and> (expiriesRepresentable now this \<longrightarrow>
            thrown (runSweep (Inr fleet) post now this) = None)
       \<and> (degradedInstances fleet > 0
            \<and> notSuppressed (suppressedInstances this ''fleet-degraded'') now
            \<and> \<not> \<bar>now + degradedSuppressionMins (thresholds this) * 60000\<bar> \<le> maxTimeValue \<longrightarrow>
            thrown (runSweep (Inr fleet) post now this) = Some RangeError
            \<and> monitor (runSweep (Inr fleet) post now this) = this)"
proof (intro conjI impI allI)
  assume a: "thrown (runSweep (Inr fleet) post now this) = None \<and> degradedInstances fleet > 0"
  then show "suppressedInstances (monitor (runSweep (Inr fleet) post now this)) ''fleet-degraded''
              = (case suppressedInstances this ''fleet-degraded'' of
                   None \<Rightarrow> Some (now + degradedSuppressionMins (thresholds this) * 60000)
                 | Some u \<Rightarrow>
                     if now > u
                     then Some (now + degradedSuppressionMins (thresholds this) * 60000)
                     else Some u)"
    using runSweep_summary_returned(1)[of fleet post now this]
    by (auto simp: notSuppressed_def split: option.splits)
next
  fix s
  assume n: "thrown (runSweep (Inr fleet) post now this) = None"
    and m: "map_of (byProvider fleet) p = Some s"
  show "suppressedProviders (monitor (runSweep (Inr fleet) post now this)) p
                 = (if healthScore s < providerDegradedScore (thresholds this)
                    then (case suppressedProviders this p of
                            None \<Rightarrow> Some (now + 3600000)
                          | Some u \<Rightarrow> if now > u then Some (now + 3600000) else Some u)
                    else None)"
    using runSweep_summary_returned(4)[OF n dist, of p] m
    by (auto simp: notSuppressed_def split: option.splits)
next
  assume "expiriesRepresentable now this"
  then show "thrown (runSweep (Inr fleet) post now this) = None"
    by (rule runSweep_not_thrown)
next
  assume a: "degradedInstances fleet > 0
            \<and> notSuppressed (suppressedInstances this ''fleet-degraded'') now
            \<and> \<not> \<bar>now + degradedSuppressionMins (thresholds this) * 60000\<bar> \<le> maxTimeValue"
  then show "thrown (runSweep (Inr fleet) post now this) = Some RangeError"
    by (simp add: runSweep_window_throws)
  from a show "monitor (runSweep (Inr fleet) post now this) = this"
    by (simp add: runSweep_window_throws)
qed

theorem ledger_lifecycle_witness:
  "expiriesRepresentable sampleNow sampleMonitor
   \<and> thrown (runSweep (Inr (fleetWith 3 0 60)) postOk sampleNow sampleMonitor) = None
   \<and> distinct (map fst (byProvider (fleetWith 3 0 60)))
   \<and> degradedInstances (fleetWith 3 0 60) > 0
   \<and> map_of (byProvider (fleetWith 3 0 60)) ''hetzner'' = Some (sampleSummary 60)
   \<and> suppressedInstances
        (monitor (runSweep (Inr (fleetWith 3 0 60)) postOk sampleNow sampleMonitor))
        ''fleet-degraded'' = Some (sampleNow + 1800000)
   \<and> suppressedProviders
        (monitor (runSweep (Inr (fleetWith 3 0 60)) postOk sampleNow sampleMonitor))
        ''hetzner'' = Some (sampleNow + 3600000)
   \<and> notSuppressed (suppressedInstances longWindowMonitor ''fleet-degraded'') sampleNow
   \<and> \<not> \<bar>sampleNow + degradedSuppressionMins (thresholds longWindowMonitor) * 60000\<bar>
         \<le> maxTimeValue
   \<and> thrown (runSweep (Inr (fleetWith 3 0 60)) postOk sampleNow longWindowMonitor)
       = Some RangeError
   \<and> monitor (runSweep (Inr (fleetWith 3 0 60)) postOk sampleNow longWindowMonitor)
       = longWindowMonitor"
proof -
  have ok: "expiriesRepresentable sampleNow sampleMonitor"
    using expiriesRepresentable_sample[OF sample_threshold_values(1), of 0] by simp
  have d: "distinct (map fst (byProvider (fleetWith 3 0 60)))"
    and g: "degradedInstances (fleetWith 3 0 60) > 0"
    and m: "map_of (byProvider (fleetWith 3 0 60)) ''hetzner'' = Some (sampleSummary 60)"
    by (simp_all add: byProvider_fleetWith)
  have e0: "suppressedInstances sampleMonitor ''fleet-degraded'' = None"
    "suppressedProviders sampleMonitor ''hetzner'' = None"
    by (simp_all add: sample_defs)
  note t = ledger_lifecycle[OF d, of postOk sampleNow sampleMonitor "''hetzner''"]
  note u = ledger_lifecycle[OF d, of postOk sampleNow longWindowMonitor "''hetzner''"]
  have n: "thrown (runSweep (Inr (fleetWith 3 0 60)) postOk sampleNow sampleMonitor) = None"
    using t ok by blast
  have ns: "notSuppressed (suppressedInstances longWindowMonitor ''fleet-degraded'') sampleNow"
    and iv: "\<not> \<bar>sampleNow + degradedSuppressionMins (thresholds longWindowMonitor) * 60000\<bar>
         \<le> maxTimeValue"
    by (simp_all add: longWindowMonitor_values notSuppressed_def)
  have x: "thrown (runSweep (Inr (fleetWith 3 0 60)) postOk sampleNow longWindowMonitor)
       = Some RangeError
   \<and> monitor (runSweep (Inr (fleetWith 3 0 60)) postOk sampleNow longWindowMonitor)
       = longWindowMonitor"
    using u g ns iv by blast
  have a: "suppressedInstances
        (monitor (runSweep (Inr (fleetWith 3 0 60)) postOk sampleNow sampleMonitor))
        ''fleet-degraded'' = Some (sampleNow + 1800000)"
    using t n g by (simp add: e0 sample_threshold_values)
  have b: "suppressedProviders
        (monitor (runSweep (Inr (fleetWith 3 0 60)) postOk sampleNow sampleMonitor))
        ''hetzner'' = Some (sampleNow + 3600000)"
    using t n m by (simp add: e0 sample_threshold_values sampleSummary_def)
  show ?thesis
    using ok n d g m a b ns iv x by blast
qed

text \<open>
  C2. Isolation of a failing rule. As claimed (a throw inside one check leaves the other
  checks running and their events produced) this does not hold: \<open>runSweep\<close> calls the
  checks one after the other with nothing to catch a throw. With a suppression window so
  long that the expiry is not a valid date, \<open>checkInstanceHealth\<close> throws a RangeError on a
  degraded fleet, and the cost and backlog events that the later checks would return are
  never produced.
\<close>

theorem rule_isolation_counterexample:
  "checkCostAnomaly sampleNow burstFleet longWindowMonitor \<noteq> None
   \<and> checkProvisionQueue sampleNow burstFleet longWindowMonitor \<noteq> None
   \<and> checkInstanceHealth sampleNow burstFleet longWindowMonitor
       = (longWindowMonitor, Inl RangeError)
   \<and> thrown (runSweep (Inr burstFleet) postOk sampleNow longWindowMonitor) = Some RangeError
   \<and> emitted (runSweep (Inr burstFleet) postOk sampleNow longWindowMonitor) = []
   \<and> posts (runSweep (Inr burstFleet) postOk sampleNow longWindowMonitor) = []"
proof -
  have i: "checkInstanceHealth sampleNow burstFleet longWindowMonitor
       = (longWindowMonitor, Inl RangeError)"
    by (simp add: eval_defs sample_defs)
  have c: "checkCostAnomaly sampleNow burstFleet longWindowMonitor \<noteq> None"
    by (simp add: eval_defs sample_defs)
  have q: "checkProvisionQueue sampleNow burstFleet longWindowMonitor \<noteq> None"
    by (simp add: eval_defs sample_defs)
  show ?thesis
    using i c q by (simp add: runSweep_def)
qed

text \<open>
  C2, as the code has it. When \<open>checkInstanceHealth\<close> throws, \<open>runSweep\<close> throws the same
  error and leaves the monitor exactly as it was before the sweep. When
  \<open>checkInstanceHealth\<close> returns and \<open>checkProviderHealth\<close> throws, \<open>runSweep\<close> throws the
  same error and leaves the monitor as \<open>checkProviderHealth\<close> left it at the throw. A sweep
  that throws emits nothing, sends nothing and does not record the snapshot as the last
  known one; the timer's callback catches and logs the error, and leaves the running flag
  and the timer as they were.
\<close>

theorem throw_aborts_sweep:
  "(snd (checkInstanceHealth now fleet this) = Inl e \<longrightarrow>
      thrown (runSweep (Inr fleet) post now this) = Some e
      \<and> monitor (runSweep (Inr fleet) post now this) = this)
   \<and> ((\<exists>events. snd (checkInstanceHealth now fleet this) = Inr events)
        \<and> snd (checkProviderHealth now fleet (fst (checkInstanceHealth now fleet this))) = Inl e \<longrightarrow>
      thrown (runSweep (Inr fleet) post now this) = Some e
      \<and> monitor (runSweep (Inr fleet) post now this)
          = fst (checkProviderHealth now fleet (fst (checkInstanceHealth now fleet this))))
   \<and> (thrown (runSweep fetched post now this) = Some e \<longrightarrow>
        emitted (runSweep fetched post now this) = []
        \<and> posts (runSweep fetched post now this) = []
        \<and> lastKnownState (monitor (runSweep fetched post now this)) = lastKnownState this
        \<and> (running this \<longrightarrow>
             logs (tick fetched post now this) = [DebugRunningSweep, ErrorSweepFailed e]))
   \<and> thrown (tick fetched post now this) = None
   \<and> running (monitor (tick fetched post now this)) = running this
   \<and> pollTimer (monitor (tick fetched post now this)) = pollTimer this"
proof (intro conjI)
  show "snd (checkInstanceHealth now fleet this) = Inl e \<longrightarrow>
      thrown (runSweep (Inr fleet) post now this) = Some e
      \<and> monitor (runSweep (Inr fleet) post now this) = this"
  proof
    assume a: "snd (checkInstanceHealth now fleet this) = Inl e"
    then obtain this' where i: "checkInstanceHealth now fleet this = (this', Inl e)"
      by (cases "checkInstanceHealth now fleet this") auto
    show "thrown (runSweep (Inr fleet) post now this) = Some e
      \<and> monitor (runSweep (Inr fleet) post now this) = this"
      by (simp add: runSweep_instance_throws[OF i])
  qed
  show "(\<exists>events. snd (checkInstanceHealth now fleet this) = Inr events)
        \<and> snd (checkProviderHealth now fleet (fst (checkInstanceHealth now fleet this))) = Inl e \<longrightarrow>
      thrown (runSweep (Inr fleet) post now this) = Some e
      \<and> monitor (runSweep (Inr fleet) post now this)
          = fst (checkProviderHealth now fleet (fst (checkInstanceHealth now fleet this)))"
  proof
    assume a: "(\<exists>events. snd (checkInstanceHealth now fleet this) = Inr events)
        \<and> snd (checkProviderHealth now fleet (fst (checkInstanceHealth now fleet this))) = Inl e"
    then obtain this1 events where i: "checkInstanceHealth now fleet this = (this1, Inr events)"
      by (cases "checkInstanceHealth now fleet this") auto
    with a obtain this2 where p: "checkProviderHealth now fleet this1 = (this2, Inl e)"
      by (cases "checkProviderHealth now fleet this1") auto
    show "thrown (runSweep (Inr fleet) post now this) = Some e
      \<and> monitor (runSweep (Inr fleet) post now this)
          = fst (checkProviderHealth now fleet (fst (checkInstanceHealth now fleet this)))"
      by (simp add: runSweep_provider_throws[OF i p] i p)
  qed
  show "thrown (runSweep fetched post now this) = Some e \<longrightarrow>
        emitted (runSweep fetched post now this) = []
        \<and> posts (runSweep fetched post now this) = []
        \<and> lastKnownState (monitor (runSweep fetched post now this)) = lastKnownState this
        \<and> (running this \<longrightarrow>
             logs (tick fetched post now this) = [DebugRunningSweep, ErrorSweepFailed e])"
  proof
    assume t: "thrown (runSweep fetched post now this) = Some e"
    show "emitted (runSweep fetched post now this) = []
        \<and> posts (runSweep fetched post now this) = []
        \<and> lastKnownState (monitor (runSweep fetched post now this)) = lastKnownState this
        \<and> (running this \<longrightarrow>
             logs (tick fetched post now this) = [DebugRunningSweep, ErrorSweepFailed e])"
      using runSweep_thrown[OF t] t by (simp add: tick_def Let_def)
  qed
  show "thrown (tick fetched post now this) = None"
    by (simp add: tick_def Let_def)
  show "running (monitor (tick fetched post now this)) = running this"
    by (simp add: tick_def Let_def runSweep_fields)
  show "pollTimer (monitor (tick fetched post now this)) = pollTimer this"
    by (simp add: tick_def Let_def runSweep_fields)
qed

theorem throw_aborts_sweep_witness:
  "snd (checkInstanceHealth sampleNow burstFleet longWindowMonitor) = Inl RangeError
   \<and> thrown (runSweep (Inr burstFleet) postOk sampleNow longWindowMonitor) = Some RangeError
   \<and> monitor (runSweep (Inr burstFleet) postOk sampleNow longWindowMonitor) = longWindowMonitor
   \<and> emitted (runSweep (Inr burstFleet) postOk sampleNow longWindowMonitor) = []
   \<and> posts (runSweep (Inr burstFleet) postOk sampleNow longWindowMonitor) = []
   \<and> lastKnownState (monitor (runSweep (Inr burstFleet) postOk sampleNow longWindowMonitor))
       = None
   \<and> running longWindowMonitor
   \<and> logs (tick (Inr burstFleet) postOk sampleNow longWindowMonitor)
       = [DebugRunningSweep, ErrorSweepFailed RangeError]
   \<and> snd (checkInstanceHealth lastInstant (fleetWith 0 0 60) sampleMonitor) = Inr []
   \<and> checkProviderHealth lastInstant (fleetWith 0 0 60)
        (fst (checkInstanceHealth lastInstant (fleetWith 0 0 60) sampleMonitor))
       = (sampleMonitor, Inl RangeError)
   \<and> thrown (runSweep (Inr (fleetWith 0 0 60)) postOk lastInstant sampleMonitor)
       = Some RangeError
   \<and> monitor (runSweep (Inr (fleetWith 0 0 60)) postOk lastInstant sampleMonitor)
       = sampleMonitor"
proof -
  have i: "snd (checkInstanceHealth sampleNow burstFleet longWindowMonitor) = Inl RangeError"
    by (simp add: eval_defs sample_defs)
  have r: "running longWindowMonitor" and l: "lastKnownState longWindowMonitor = None"
    by (simp_all add: sample_defs)
  have j: "snd (checkInstanceHealth lastInstant (fleetWith 0 0 60) sampleMonitor) = Inr []"
    and f: "fst (checkInstanceHealth lastInstant (fleetWith 0 0 60) sampleMonitor) = sampleMonitor"
    by (simp_all add: eval_defs sample_defs)
  have p: "checkProviderHealth lastInstant (fleetWith 0 0 60)
             (fst (checkInstanceHealth lastInstant (fleetWith 0 0 60) sampleMonitor))
       = (sampleMonitor, Inl RangeError)"
    unfolding f by (simp add: eval_defs sample_defs lastInstant_def)
  note a = throw_aborts_sweep[of sampleNow burstFleet longWindowMonitor RangeError postOk
      "Inr burstFleet"]
  note b = throw_aborts_sweep[of lastInstant "fleetWith 0 0 60" sampleMonitor RangeError postOk
      "Inr (fleetWith 0 0 60)"]
  have t: "thrown (runSweep (Inr burstFleet) postOk sampleNow longWindowMonitor) = Some RangeError
     \<and> monitor (runSweep (Inr burstFleet) postOk sampleNow longWindowMonitor) = longWindowMonitor"
    using a i by blast
  have u: "thrown (runSweep (Inr (fleetWith 0 0 60)) postOk lastInstant sampleMonitor)
       = Some RangeError
     \<and> monitor (runSweep (Inr (fleetWith 0 0 60)) postOk lastInstant sampleMonitor)
       = sampleMonitor"
    using b j p by simp
  have "emitted (runSweep (Inr burstFleet) postOk sampleNow longWindowMonitor) = []
   \<and> posts (runSweep (Inr burstFleet) postOk sampleNow longWindowMonitor) = []
   \<and> lastKnownState (monitor (runSweep (Inr burstFleet) postOk sampleNow longWindowMonitor))
       = None
   \<and> logs (tick (Inr burstFleet) postOk sampleNow longWindowMonitor)
       = [DebugRunningSweep, ErrorSweepFailed RangeError]"
    using a t r l by simp
  with i t r j p u show ?thesis by blast
qed

text \<open>
  C3. Failures are never suppressed. As claimed (for every snapshot with failed instances
  and every state of the ledger the sweep produces exactly one \<open>PAIR_FAILED\<close> event) this
  does not hold: the degraded branch of \<open>checkInstanceHealth\<close> comes first, and when it
  computes an expiry that is not a valid date it throws before the \<open>PAIR_FAILED\<close> event is
  pushed. With a window of 10^12 minutes, a snapshot with one degraded and two failed
  instances produces no event from an empty ledger, and the \<open>PAIR_FAILED\<close> event once the
  aggregate key is suppressed: the event does depend on the ledger.
\<close>

theorem pair_failed_never_suppressed_counterexample:
  "failedInstances (fleetWith 1 2 80) > 0
   \<and> thrown (runSweep (Inr (fleetWith 1 2 80)) postOk sampleNow longWindowMonitor)
       = Some RangeError
   \<and> emitted (runSweep (Inr (fleetWith 1 2 80)) postOk sampleNow longWindowMonitor) = []
   \<and> ofType PAIR_FAILED
        (emitted (runSweep (Inr (fleetWith 1 2 80)) postOk sampleNow longWindowMonitor)) = []
   \<and> ofType PAIR_FAILED
        (emitted (runSweep (Inr (fleetWith 1 2 80)) postOk sampleNow
           (longWindowMonitor\<lparr>suppressedInstances := [''fleet-degraded'' \<mapsto> sampleNow + 1]\<rparr>)))
       = [pairFailedEvent sampleNow (fleetWith 1 2 80)]"
proof -
  have t: "runSweep (Inr (fleetWith 1 2 80)) postOk sampleNow longWindowMonitor =
           \<lparr>monitor = longWindowMonitor, thrown = Some RangeError, emitted = [], posts = [],
            logs = [DebugRunningSweep]\<rparr>"
    by (rule runSweep_window_throws)
       (simp_all add: byProvider_fleetWith longWindowMonitor_values notSuppressed_def)
  let ?m = "longWindowMonitor\<lparr>suppressedInstances := [''fleet-degraded'' \<mapsto> sampleNow + 1]\<rparr>"
  have n: "thrown (runSweep (Inr (fleetWith 1 2 80)) postOk sampleNow ?m) = None"
    by (simp add: eval_defs sample_defs)
  have s: "ofType PAIR_FAILED (emitted (runSweep (Inr (fleetWith 1 2 80)) postOk sampleNow ?m))
       = [pairFailedEvent sampleNow (fleetWith 1 2 80)]"
    using runSweep_summary_returned(3)[OF n] by (simp add: byProvider_fleetWith)
  show ?thesis
    using s by (simp add: t byProvider_fleetWith)
qed

text \<open>
  C3, as the code has it. For every snapshot with failed instances and every state of the
  ledger, a sweep that does not throw hands exactly one \<open>PAIR_FAILED\<close> event to the
  dispatcher, at priority critical, for the guardian, carrying the failed count and the
  active alerts of severity critical; and so does every call of \<open>checkInstanceHealth\<close> that
  returns. A sweep does not throw when the expiries it may compute are valid dates.
  \<open>checkInstanceHealth\<close> throws, a RangeError, exactly when there are degraded instances,
  the aggregate key is absent or expired, and now plus the window is not a valid date; the
  sweep then throws too and emits nothing. A sweep over a snapshot with no degraded and no
  failed instance produces neither an \<open>INSTANCE_DEGRADED\<close> nor a \<open>PAIR_FAILED\<close> event.
\<close>

theorem pair_failed_never_suppressed:
  "(thrown (runSweep (Inr fleet) post now this) = None \<and> failedInstances fleet > 0 \<longrightarrow>
      (\<exists>e. ofType PAIR_FAILED (emitted (runSweep (Inr fleet) post now this)) = [e]
           \<and> priority e = Critical \<and> targetAgent e = Guardian
           \<and> payload e = FailedPayload (failedInstances fleet)
                           (filter (\<lambda>a. severity a = SevCritical) (alerts fleet))
           \<and> suppressUntil e = None))
   \<and> (failedInstances fleet > 0 \<longrightarrow>
        (\<forall>this' events. checkInstanceHealth now fleet this = (this', Inr events) \<longrightarrow>
           (\<exists>e. ofType PAIR_FAILED events = [e]
                \<and> priority e = Critical \<and> targetAgent e = Guardian
                \<and> payload e = FailedPayload (failedInstances fleet)
                                (filter (\<lambda>a. severity a = SevCritical) (alerts fleet))
                \<and> suppressUntil e = None)))
   \<and> (expiriesRepresentable now this \<longrightarrow>
        thrown (runSweep (Inr fleet) post now this) = None)
   \<and> (degradedInstances fleet > 0
        \<and> notSuppressed (suppressedInstances this ''fleet-degraded'') now
        \<and> \<not> \<bar>now + degradedSuppressionMins (thresholds this) * 60000\<bar> \<le> maxTimeValue \<longrightarrow>
        checkInstanceHealth now fleet this = (this, Inl RangeError)
        \<and> thrown (runSweep (Inr fleet) post now this) = Some RangeError
        \<and> emitted (runSweep (Inr fleet) post now this) = [])
   \<and> (\<not> (degradedInstances fleet > 0
           \<and> notSuppressed (suppressedInstances this ''fleet-degraded'') now
           \<and> \<not> \<bar>now + degradedSuppressionMins (thresholds this) * 60000\<bar> \<le> maxTimeValue) \<longrightarrow>
        (\<exists>this' events. checkInstanceHealth now fleet this = (this', Inr events)))
   \<and> (degradedInstances fleet = 0 \<and> failedInstances fleet = 0 \<longrightarrow>
        ofType INSTANCE_DEGRADED (emitted (runSweep (Inr fleet) post now this)) = []
        \<and> ofType PAIR_FAILED (emitted (runSweep (Inr fleet) post now this)) = []
        \<and> checkInstanceHealth now fleet this = (this, Inr []))"
proof (intro conjI impI)
  assume a: "thrown (runSweep (Inr fleet) post now this) = None \<and> failedInstances fleet > 0"
  then show "\<exists>e. ofType PAIR_FAILED (emitted (runSweep (Inr fleet) post now this)) = [e]
           \<and> priority e = Critical \<and> targetAgent e = Guardian
           \<and> payload e = FailedPayload (failedInstances fleet)
                           (filter (\<lambda>a. severity a = SevCritical) (alerts fleet))
           \<and> suppressUntil e = None"
    using runSweep_summary_returned(3)[of fleet post now this]
    by (simp add: pairFailedEvent_def)
next
  assume f: "failedInstances fleet > 0"
  show "\<forall>this' events. checkInstanceHealth now fleet this = (this', Inr events) \<longrightarrow>
           (\<exists>e. ofType PAIR_FAILED events = [e]
                \<and> priority e = Critical \<and> targetAgent e = Guardian
                \<and> payload e = FailedPayload (failedInstances fleet)
                                (filter (\<lambda>a. severity a = SevCritical) (alerts fleet))
                \<and> suppressUntil e = None)"
    using f
    by (auto simp: checkInstanceHealth_cases ofType_def pairFailedEvent_def
        instanceDegradedEvent_def split: if_splits)
next
  assume "expiriesRepresentable now this"
  then show "thrown (runSweep (Inr fleet) post now this) = None"
    by (rule runSweep_not_thrown)
next
  assume a: "degradedInstances fleet > 0
        \<and> notSuppressed (suppressedInstances this ''fleet-degraded'') now
        \<and> \<not> \<bar>now + degradedSuppressionMins (thresholds this) * 60000\<bar> \<le> maxTimeValue"
  then show "checkInstanceHealth now fleet this = (this, Inl RangeError)"
    by (simp add: checkInstanceHealth_cases)
  from a show "thrown (runSweep (Inr fleet) post now this) = Some RangeError"
    by (simp add: runSweep_window_throws)
  from a show "emitted (runSweep (Inr fleet) post now this) = []"
    by (simp add: runSweep_window_throws)
next
  assume "\<not> (degradedInstances fleet > 0
           \<and> notSuppressed (suppressedInstances this ''fleet-degraded'') now
           \<and> \<not> \<bar>now + degradedSuppressionMins (thresholds this) * 60000\<bar> \<le> maxTimeValue)"
  then show "\<exists>this' events. checkInstanceHealth now fleet this = (this', Inr events)"
    by (auto simp: checkInstanceHealth_cases)
next
  assume h: "degradedInstances fleet = 0 \<and> failedInstances fleet = 0"
  show "checkInstanceHealth now fleet this = (this, Inr [])"
    using h by (simp add: checkInstanceHealth_cases)
  show "ofType INSTANCE_DEGRADED (emitted (runSweep (Inr fleet) post now this)) = []"
  proof (cases "thrown (runSweep (Inr fleet) post now this)")
    case None
    then show ?thesis using runSweep_summary_returned(2)[OF None] h by simp
  next
    case (Some e)
    then show ?thesis by (simp add: runSweep_thrown(1))
  qed
  show "ofType PAIR_FAILED (emitted (runSweep (Inr fleet) post now this)) = []"
  proof (cases "thrown (runSweep (Inr fleet) post now this)")
    case None
    then show ?thesis using runSweep_summary_returned(3)[OF None] h by simp
  next
    case (Some e)
    then show ?thesis by (simp add: runSweep_thrown(1))
  qed
qed

theorem pair_failed_never_suppressed_witness:
  "expiriesRepresentable sampleNow sampleMonitor
   \<and> thrown (runSweep (Inr (fleetWith 3 2 60)) postOk sampleNow sampleMonitor) = None
   \<and> failedInstances (fleetWith 3 2 60) > 0
   \<and> (\<exists>e. ofType PAIR_FAILED
              (emitted (runSweep (Inr (fleetWith 3 2 60)) postOk sampleNow sampleMonitor)) = [e]
          \<and> priority e = Critical \<and> targetAgent e = Guardian
          \<and> payload e = FailedPayload 2 [hd sampleAlerts] \<and> suppressUntil e = None)
   \<and> degradedInstances (fleetWith 1 2 80) > 0
   \<and> notSuppressed (suppressedInstances longWindowMonitor ''fleet-degraded'') sampleNow
   \<and> checkInstanceHealth sampleNow (fleetWith 1 2 80) longWindowMonitor
       = (longWindowMonitor, Inl RangeError)
   \<and> thrown (runSweep (Inr (fleetWith 1 2 80)) postOk sampleNow longWindowMonitor)
       = Some RangeError
   \<and> (\<exists>this' events e.
         checkInstanceHealth sampleNow (fleetWith 0 2 80) longWindowMonitor = (this', Inr events)
         \<and> ofType PAIR_FAILED events = [e] \<and> priority e = Critical)
   \<and> degradedInstances sampleFleet = 0 \<and> failedInstances sampleFleet = 0
   \<and> ofType INSTANCE_DEGRADED
        (emitted (runSweep (Inr sampleFleet) postOk sampleNow sampleMonitor)) = []
   \<and> ofType PAIR_FAILED
        (emitted (runSweep (Inr sampleFleet) postOk sampleNow sampleMonitor)) = []"
proof -
  have h: "expiriesRepresentable sampleNow sampleMonitor"
    using expiriesRepresentable_sample[OF sample_threshold_values(1), of 0] by simp
  have f: "failedInstances (fleetWith 3 2 60) > 0"
    and a: "filter (\<lambda>a. severity a = SevCritical) (alerts (fleetWith 3 2 60)) = [hd sampleAlerts]"
    and z: "degradedInstances sampleFleet = 0" "failedInstances sampleFleet = 0"
    by (simp_all add: sample_defs)
  note t1 = pair_failed_never_suppressed[of "fleetWith 3 2 60" postOk sampleNow sampleMonitor]
  note t2 = pair_failed_never_suppressed[of "fleetWith 1 2 80" postOk sampleNow longWindowMonitor]
  note t3 = pair_failed_never_suppressed[of "fleetWith 0 2 80" postOk sampleNow longWindowMonitor]
  note t4 = pair_failed_never_suppressed[of sampleFleet postOk sampleNow sampleMonitor]
  have n: "thrown (runSweep (Inr (fleetWith 3 2 60)) postOk sampleNow sampleMonitor) = None"
    using t1 h by blast
  have e: "\<exists>e. ofType PAIR_FAILED
              (emitted (runSweep (Inr (fleetWith 3 2 60)) postOk sampleNow sampleMonitor)) = [e]
          \<and> priority e = Critical \<and> targetAgent e = Guardian
          \<and> payload e = FailedPayload 2 [hd sampleAlerts] \<and> suppressUntil e = None"
    using t1 n f by (simp add: a byProvider_fleetWith)
  have d: "degradedInstances (fleetWith 1 2 80) > 0"
    and ns: "notSuppressed (suppressedInstances longWindowMonitor ''fleet-degraded'') sampleNow"
    and iv: "\<not> \<bar>sampleNow + degradedSuppressionMins (thresholds longWindowMonitor) * 60000\<bar>
               \<le> maxTimeValue"
    by (simp_all add: byProvider_fleetWith longWindowMonitor_values notSuppressed_def)
  have c: "checkInstanceHealth sampleNow (fleetWith 1 2 80) longWindowMonitor
       = (longWindowMonitor, Inl RangeError)
     \<and> thrown (runSweep (Inr (fleetWith 1 2 80)) postOk sampleNow longWindowMonitor)
       = Some RangeError"
    using t2 d ns iv by blast
  have "\<exists>this' events. checkInstanceHealth sampleNow (fleetWith 0 2 80) longWindowMonitor
          = (this', Inr events)"
    using t3 by (simp add: byProvider_fleetWith)
  then obtain this' events where
    i: "checkInstanceHealth sampleNow (fleetWith 0 2 80) longWindowMonitor = (this', Inr events)"
    by blast
  have "\<exists>e. ofType PAIR_FAILED events = [e] \<and> priority e = Critical"
    using t3 i by (simp add: byProvider_fleetWith) blast
  with i have g: "\<exists>this' events e.
         checkInstanceHealth sampleNow (fleetWith 0 2 80) longWindowMonitor = (this', Inr events)
         \<and> ofType PAIR_FAILED events = [e] \<and> priority e = Critical"
    by blast
  have q: "ofType INSTANCE_DEGRADED
        (emitted (runSweep (Inr sampleFleet) postOk sampleNow sampleMonitor)) = []
   \<and> ofType PAIR_FAILED
        (emitted (runSweep (Inr sampleFleet) postOk sampleNow sampleMonitor)) = []"
    using t4 z by blast
  show ?thesis
    using h n f e d ns c g z q by blast
qed

text \<open>
  C4. Debouncing of the degraded-instance alert. As claimed (from an empty ledger, a sweep
  with degraded instances emits \<open>INSTANCE_DEGRADED\<close> and sets the expiry) the first step does
  not hold for every window: with a window of 10^12 minutes the expiry is not a valid date,
  the first sweep throws, emits no \<open>INSTANCE_DEGRADED\<close> event and sets no expiry.
\<close>

theorem degraded_debounce_counterexample:
  "suppressedInstances longWindowMonitor = Map.empty
   \<and> degradedInstances (fleetWith 3 0 80) > 0
   \<and> thrown (runSweep (Inr (fleetWith 3 0 80)) postOk sampleNow longWindowMonitor)
       = Some RangeError
   \<and> ofType INSTANCE_DEGRADED
        (emitted (runSweep (Inr (fleetWith 3 0 80)) postOk sampleNow longWindowMonitor)) = []
   \<and> suppressedInstances
        (monitor (runSweep (Inr (fleetWith 3 0 80)) postOk sampleNow longWindowMonitor))
        ''fleet-degraded'' = None"
proof -
  have t: "runSweep (Inr (fleetWith 3 0 80)) postOk sampleNow longWindowMonitor =
           \<lparr>monitor = longWindowMonitor, thrown = Some RangeError, emitted = [], posts = [],
            logs = [DebugRunningSweep]\<rparr>"
    by (rule runSweep_window_throws)
       (simp_all add: byProvider_fleetWith longWindowMonitor_values notSuppressed_def)
  show ?thesis
    by (simp add: t byProvider_fleetWith longWindowMonitor_values)
qed

text \<open>
  C4, as the code has it. From an empty aggregate store, a sweep at \<open>t1\<close> over a snapshot
  with degraded instances that does not throw emits one \<open>INSTANCE_DEGRADED\<close> event and sets
  the expiry of the key \<open>fleet-degraded\<close> to \<open>t1\<close> plus the configured window; a second
  sweep over such a snapshot at a time \<open>t2\<close> not later than that expiry emits none; a third
  at a time \<open>t3\<close> later than that expiry, if it does not throw, emits one again. The first
  and the third sweep do not throw when the expiries they may compute are valid dates;
  when \<open>t1\<close> plus the window is not a valid date the first sweep throws a RangeError, emits
  nothing and leaves the monitor as it was.
\<close>

theorem degraded_debounce:
  assumes empty: "suppressedInstances this = Map.empty"
    and d1: "degradedInstances f1 > 0" and d2: "degradedInstances f2 > 0"
    and d3: "degradedInstances f3 > 0"
    and within: "t2 \<le> t1 + degradedSuppressionMins (thresholds this) * 60000"
    and after: "t3 > t1 + degradedSuppressionMins (thresholds this) * 60000"
  shows "(thrown (runSweep (Inr f1) post t1 this) = None \<longrightarrow>
            (\<exists>e. ofType INSTANCE_DEGRADED (emitted (runSweep (Inr f1) post t1 this)) = [e]
                 \<and> suppressUntil e
                     = Some (t1 + degradedSuppressionMins (thresholds this) * 60000))
            \<and> suppressedInstances (monitor (runSweep (Inr f1) post t1 this)) ''fleet-degraded''
                = Some (t1 + degradedSuppressionMins (thresholds this) * 60000)
            \<and> ofType INSTANCE_DEGRADED
                (emitted (runSweep (Inr f2) post t2 (monitor (runSweep (Inr f1) post t1 this))))
                = []
            \<and> (thrown (runSweep (Inr f3) post t3
                         (monitor (runSweep (Inr f2) post t2
                            (monitor (runSweep (Inr f1) post t1 this))))) = None \<longrightarrow>
                 (\<exists>e. ofType INSTANCE_DEGRADED
                         (emitted (runSweep (Inr f3) post t3
                            (monitor (runSweep (Inr f2) post t2
                               (monitor (runSweep (Inr f1) post t1 this)))))) = [e]
                      \<and> suppressUntil e
                          = Some (t3 + degradedSuppressionMins (thresholds this) * 60000))))
       \<and> (expiriesRepresentable t1 this \<longrightarrow> thrown (runSweep (Inr f1) post t1 this) = None)
       \<and> (expiriesRepresentable t3 this \<longrightarrow>
            thrown (runSweep (Inr f3) post t3
                      (monitor (runSweep (Inr f2) post t2
                         (monitor (runSweep (Inr f1) post t1 this))))) = None)
       \<and> (\<not> \<bar>t1 + degradedSuppressionMins (thresholds this) * 60000\<bar> \<le> maxTimeValue \<longrightarrow>
            thrown (runSweep (Inr f1) post t1 this) = Some RangeError
            \<and> emitted (runSweep (Inr f1) post t1 this) = []
            \<and> monitor (runSweep (Inr f1) post t1 this) = this)"
proof -
  let ?W = "degradedSuppressionMins (thresholds this) * 60000"
  let ?r1 = "runSweep (Inr f1) post t1 this"
  let ?r2 = "runSweep (Inr f2) post t2 (monitor ?r1)"
  let ?r3 = "runSweep (Inr f3) post t3 (monitor ?r2)"
  have ns1: "notSuppressed (suppressedInstances this ''fleet-degraded'') t1"
    using empty by (simp add: notSuppressed_def)
  have th1: "thresholds (monitor ?r1) = thresholds this" by (rule runSweep_fields)
  have th2: "thresholds (monitor ?r2) = thresholds this" by (simp add: runSweep_fields)
  have main: "(\<exists>e. ofType INSTANCE_DEGRADED (emitted ?r1) = [e] \<and> suppressUntil e = Some (t1 + ?W))
            \<and> suppressedInstances (monitor ?r1) ''fleet-degraded'' = Some (t1 + ?W)
            \<and> ofType INSTANCE_DEGRADED (emitted ?r2) = []
            \<and> (thrown ?r3 = None \<longrightarrow>
                 (\<exists>e. ofType INSTANCE_DEGRADED (emitted ?r3) = [e]
                      \<and> suppressUntil e = Some (t3 + ?W)))"
    if n1: "thrown ?r1 = None"
  proof -
    note s1 = runSweep_summary_returned[OF n1]
    have l1: "suppressedInstances (monitor ?r1) ''fleet-degraded'' = Some (t1 + ?W)"
      using s1(1) d1 ns1 by simp
    have e1: "ofType INSTANCE_DEGRADED (emitted ?r1) = [instanceDegradedEvent t1 f1 this]"
      using s1(2) d1 ns1 by simp
    have n2: "\<not> notSuppressed (suppressedInstances (monitor ?r1) ''fleet-degraded'') t2"
      using l1 within by (simp add: notSuppressed_def)
    have e2: "ofType INSTANCE_DEGRADED (emitted ?r2) = []"
    proof (cases "thrown ?r2")
      case None
      then show ?thesis using runSweep_summary_returned(2)[OF None] n2 by simp
    next
      case (Some e)
      then show ?thesis by (simp add: runSweep_thrown(1))
    qed
    have "suppressedInstances (monitor ?r2) = suppressedInstances (monitor ?r1)"
      by (rule runSweep_aggregate_unchanged) (use n2 in simp)
    then have l2: "suppressedInstances (monitor ?r2) ''fleet-degraded'' = Some (t1 + ?W)"
      using l1 by simp
    have e3: "ofType INSTANCE_DEGRADED (emitted ?r3) = [instanceDegradedEvent t3 f3 (monitor ?r2)]"
      if n3: "thrown ?r3 = None"
      using runSweep_summary_returned(2)[OF n3] d3 l2 after by (simp add: notSuppressed_def)
    show ?thesis
      using l1 e1 e2 e3 by (simp add: instanceDegradedEvent_def th2)
  qed
  have a: "expiriesRepresentable t1 this \<longrightarrow> thrown ?r1 = None"
    by (simp add: runSweep_not_thrown)
  have b: "expiriesRepresentable t3 this \<longrightarrow> thrown ?r3 = None"
    using runSweep_not_thrown[of t3 "monitor ?r2" f3 post]
    by (simp add: expiriesRepresentable_cong[OF th2])
  have c: "\<not> \<bar>t1 + ?W\<bar> \<le> maxTimeValue \<longrightarrow>
            thrown ?r1 = Some RangeError \<and> emitted ?r1 = [] \<and> monitor ?r1 = this"
    using runSweep_window_throws[OF d1 ns1, of post] by simp
  show ?thesis
    using main a b c by blast
qed

theorem degraded_debounce_witness:
  "suppressedInstances sampleMonitor = Map.empty
   \<and> degradedInstances (fleetWith 3 0 80) > 0
   \<and> sampleNow + 300000 \<le> sampleNow + degradedSuppressionMins (thresholds sampleMonitor) * 60000
   \<and> sampleNow + 1860000 > sampleNow + degradedSuppressionMins (thresholds sampleMonitor) * 60000
   \<and> expiriesRepresentable sampleNow sampleMonitor
   \<and> expiriesRepresentable (sampleNow + 1860000) sampleMonitor
   \<and> thrown (runSweep (Inr (fleetWith 3 0 80)) postOk sampleNow sampleMonitor) = None
   \<and> (\<exists>e. ofType INSTANCE_DEGRADED
             (emitted (runSweep (Inr (fleetWith 3 0 80)) postOk sampleNow sampleMonitor)) = [e]
          \<and> suppressUntil e = Some (sampleNow + 1800000))
   \<and> suppressedInstances
        (monitor (runSweep (Inr (fleetWith 3 0 80)) postOk sampleNow sampleMonitor))
        ''fleet-degraded'' = Some (sampleNow + 1800000)
   \<and> ofType INSTANCE_DEGRADED
        (emitted (runSweep (Inr (fleetWith 3 0 80)) postOk (sampleNow + 300000)
           (monitor (runSweep (Inr (fleetWith 3 0 80)) postOk sampleNow sampleMonitor)))) = []
   \<and> thrown (runSweep (Inr (fleetWith 3 0 80)) postOk (sampleNow + 1860000)
                (monitor (runSweep (Inr (fleetWith 3 0 80)) postOk (sampleNow + 300000)
                   (monitor (runSweep (Inr (fleetWith 3 0 80)) postOk sampleNow
                      sampleMonitor))))) = None
   \<and> (\<exists>e. ofType INSTANCE_DEGRADED
             (emitted (runSweep (Inr (fleetWith 3 0 80)) postOk (sampleNow + 1860000)
                (monitor (runSweep (Inr (fleetWith 3 0 80)) postOk (sampleNow + 300000)
                   (monitor (runSweep (Inr (fleetWith 3 0 80)) postOk sampleNow
                      sampleMonitor)))))) = [e]
          \<and> suppressUntil e = Some (sampleNow + 1860000 + 1800000))
   \<and> suppressedInstances longWindowMonitor = Map.empty
   \<and> \<not> \<bar>sampleNow + degradedSuppressionMins (thresholds longWindowMonitor) * 60000\<bar>
         \<le> maxTimeValue
   \<and> thrown (runSweep (Inr (fleetWith 3 0 80)) postOk sampleNow longWindowMonitor)
       = Some RangeError
   \<and> emitted (runSweep (Inr (fleetWith 3 0 80)) postOk sampleNow longWindowMonitor) = []
   \<and> monitor (runSweep (Inr (fleetWith 3 0 80)) postOk sampleNow longWindowMonitor)
       = longWindowMonitor"
proof -
  have e: "suppressedInstances sampleMonitor = Map.empty"
    and d: "degradedInstances (fleetWith 3 0 80) > 0"
    and w: "degradedSuppressionMins (thresholds sampleMonitor) * 60000 = 1800000"
    by (simp_all add: sample_defs)
  have ok: "expiriesRepresentable sampleNow sampleMonitor"
    "expiriesRepresentable (sampleNow + 1860000) sampleMonitor"
    using expiriesRepresentable_sample[OF sample_threshold_values(1), of 0]
      expiriesRepresentable_sample[OF sample_threshold_values(1), of 1860000]
    by simp_all
  have within: "sampleNow + 300000
      \<le> sampleNow + degradedSuppressionMins (thresholds sampleMonitor) * 60000"
    and after: "sampleNow + 1860000
      > sampleNow + degradedSuppressionMins (thresholds sampleMonitor) * 60000"
    by (simp_all add: w)
  note t = degraded_debounce[OF e d d d within after, of postOk]
  have n1: "thrown (runSweep (Inr (fleetWith 3 0 80)) postOk sampleNow sampleMonitor) = None"
    using t ok(1) by blast
  have n3: "thrown (runSweep (Inr (fleetWith 3 0 80)) postOk (sampleNow + 1860000)
                (monitor (runSweep (Inr (fleetWith 3 0 80)) postOk (sampleNow + 300000)
                   (monitor (runSweep (Inr (fleetWith 3 0 80)) postOk sampleNow
                      sampleMonitor))))) = None"
    using t ok(2) by blast
  have le: "suppressedInstances longWindowMonitor = Map.empty"
    and lw: "degradedSuppressionMins (thresholds longWindowMonitor) * 60000 = 60000000000000000"
    by (simp_all add: longWindowMonitor_values)
  have iv: "\<not> \<bar>sampleNow + degradedSuppressionMins (thresholds longWindowMonitor) * 60000\<bar>
         \<le> maxTimeValue"
    by (simp add: longWindowMonitor_values)
  have lwithin: "sampleNow
      \<le> sampleNow + degradedSuppressionMins (thresholds longWindowMonitor) * 60000"
    and lafter: "sampleNow + 60000000000000001
      > sampleNow + degradedSuppressionMins (thresholds longWindowMonitor) * 60000"
    by (simp_all add: lw)
  note u = degraded_debounce[OF le d d d lwithin lafter, of postOk]
  have x: "thrown (runSweep (Inr (fleetWith 3 0 80)) postOk sampleNow longWindowMonitor)
       = Some RangeError
   \<and> emitted (runSweep (Inr (fleetWith 3 0 80)) postOk sampleNow longWindowMonitor) = []
   \<and> monitor (runSweep (Inr (fleetWith 3 0 80)) postOk sampleNow longWindowMonitor)
       = longWindowMonitor"
    using u iv by blast
  show ?thesis
    using t n1 n3 e d within after ok le iv x by (simp add: w)
qed

text \<open>
  C5. The trace of one provider over five consecutive sweeps of a running monitor, whatever
  the other providers do. The provider is healthy (score at or above the floor), then
  degraded, degraded again within the hour, healthy, degraded. The first sweep emits no
  \<open>PROVIDER_DEGRADED\<close> event about it; the second emits exactly one, at priority critical if
  the score is below 50 and high otherwise, and sets the provider's expiry one hour ahead;
  the third emits none; the fourth emits none and deletes the provider's entry; the fifth
  emits the event again, however soon it comes. (With floor 75 and scores 80, 60, 60, 80,
  60 this is the trace of the claim; the priority is then high.)
\<close>

theorem provider_degradation_trace:
  assumes run: "running this"
    and ok: "expiriesRepresentable t0 this" "expiriesRepresentable t1 this"
      "expiriesRepresentable t2 this" "expiriesRepresentable t3 this"
      "expiriesRepresentable t4 this"
    and dist: "distinct (map fst (byProvider f0))" "distinct (map fst (byProvider f1))"
      "distinct (map fst (byProvider f2))" "distinct (map fst (byProvider f3))"
      "distinct (map fst (byProvider f4))"
    and s: "map_of (byProvider f0) p = Some s0" "map_of (byProvider f1) p = Some s1"
      "map_of (byProvider f2) p = Some s2" "map_of (byProvider f3) p = Some s3"
      "map_of (byProvider f4) p = Some s4"
    and healthy: "healthScore s0 \<ge> providerDegradedScore (thresholds this)"
      "healthScore s3 \<ge> providerDegradedScore (thresholds this)"
    and low: "healthScore s1 < providerDegradedScore (thresholds this)"
      "healthScore s2 < providerDegradedScore (thresholds this)"
      "healthScore s4 < providerDegradedScore (thresholds this)"
    and within: "t2 \<le> t1 + 3600000"
  shows "\<exists>r0 r1 r2 r3 r4 e1 e4.
           ticks post [(Inr f0, t0), (Inr f1, t1), (Inr f2, t2), (Inr f3, t3), (Inr f4, t4)] this
             = [r0, r1, r2, r3, r4]
           \<and> filter (aboutProvider p) (emitted r0) = []
           \<and> filter (aboutProvider p) (emitted r1) = [e1]
           \<and> priority e1 = (if healthScore s1 < 50 then Critical else High)
           \<and> suppressUntil e1 = Some (t1 + 3600000)
           \<and> suppressedProviders (monitor r1) p = Some (t1 + 3600000)
           \<and> filter (aboutProvider p) (emitted r2) = []
           \<and> filter (aboutProvider p) (emitted r3) = []
           \<and> suppressedProviders (monitor r3) p = None
           \<and> filter (aboutProvider p) (emitted r4) = [e4]
           \<and> priority e4 = (if healthScore s4 < 50 then Critical else High)
           \<and> suppressUntil e4 = Some (t4 + 3600000)"
proof -
  define r0 where "r0 = tick (Inr f0) post t0 this"
  define r1 where "r1 = tick (Inr f1) post t1 (monitor r0)"
  define r2 where "r2 = tick (Inr f2) post t2 (monitor r1)"
  define r3 where "r3 = tick (Inr f3) post t3 (monitor r2)"
  define r4 where "r4 = tick (Inr f4) post t4 (monitor r3)"
  have th: "thresholds (monitor r0) = thresholds this" "thresholds (monitor r1) = thresholds this"
    "thresholds (monitor r2) = thresholds this" "thresholds (monitor r3) = thresholds this"
    by (simp_all add: r0_def r1_def r2_def r3_def tick_fields)
  have rn: "running (monitor r0)" "running (monitor r1)" "running (monitor r2)"
    "running (monitor r3)"
    using run by (simp_all add: r0_def r1_def r2_def r3_def tick_fields)
  have ok': "expiriesRepresentable t1 (monitor r0)" "expiriesRepresentable t2 (monitor r1)"
    "expiriesRepresentable t3 (monitor r2)" "expiriesRepresentable t4 (monitor r3)"
    using ok by (simp_all add: expiriesRepresentable_cong[OF th(1)]
        expiriesRepresentable_cong[OF th(2)] expiriesRepresentable_cong[OF th(3)]
        expiriesRepresentable_cong[OF th(4)])
  note k0 = tick_provider[OF run ok(1) dist(1) s(1), where post = post, folded r0_def]
  note k1 = tick_provider[OF rn(1) ok'(1) dist(2) s(2), where post = post, folded r1_def, unfolded th]
  note k2 = tick_provider[OF rn(2) ok'(2) dist(3) s(3), where post = post, folded r2_def, unfolded th]
  note k3 = tick_provider[OF rn(3) ok'(3) dist(4) s(4), where post = post, folded r3_def, unfolded th]
  note k4 = tick_provider[OF rn(4) ok'(4) dist(5) s(5), where post = post, folded r4_def, unfolded th]
  have l0: "suppressedProviders (monitor r0) p = None"
    using k0(1) healthy(1) by simp
  have e0: "filter (aboutProvider p) (emitted r0) = []"
    using k0(2) healthy(1) by simp
  have e1: "filter (aboutProvider p) (emitted r1) = [providerDegradedEvent t1 p s1]"
    using k1(2) low(1) l0 by (simp add: notSuppressed_def)
  have l1: "suppressedProviders (monitor r1) p = Some (t1 + 3600000)"
    using k1(1) low(1) l0 by (simp add: notSuppressed_def)
  have e2: "filter (aboutProvider p) (emitted r2) = []"
    using k2(2) low(2) l1 within by (simp add: notSuppressed_def)
  have e3: "filter (aboutProvider p) (emitted r3) = []"
    using k3(2) healthy(2) by simp
  have l3: "suppressedProviders (monitor r3) p = None"
    using k3(1) healthy(2) by simp
  have e4: "filter (aboutProvider p) (emitted r4) = [providerDegradedEvent t4 p s4]"
    using k4(2) low(3) l3 by (simp add: notSuppressed_def)
  have t: "ticks post [(Inr f0, t0), (Inr f1, t1), (Inr f2, t2), (Inr f3, t3), (Inr f4, t4)] this
             = [r0, r1, r2, r3, r4]"
    by (simp add: Let_def r0_def r1_def r2_def r3_def r4_def)
  have p1: "priority (providerDegradedEvent t1 p s1) = (if healthScore s1 < 50 then Critical else High)"
    "suppressUntil (providerDegradedEvent t1 p s1) = Some (t1 + 3600000)"
    "priority (providerDegradedEvent t4 p s4) = (if healthScore s4 < 50 then Critical else High)"
    "suppressUntil (providerDegradedEvent t4 p s4) = Some (t4 + 3600000)"
    by (simp_all add: providerDegradedEvent_def)
  show ?thesis
    using t e0 e1 l1 e2 e3 l3 e4 p1 by blast
qed


theorem provider_degradation_trace_witness:
  "running sampleMonitor
   \<and> providerDegradedScore (thresholds sampleMonitor) = 75
   \<and> map_of (byProvider (fleetWith 0 0 80)) ''hetzner'' = Some (sampleSummary 80)
   \<and> map_of (byProvider (fleetWith 0 0 60)) ''hetzner'' = Some (sampleSummary 60)
   \<and> healthScore (sampleSummary 80) = 80 \<and> healthScore (sampleSummary 60) = 60
   \<and> sampleNow + 600000 \<le> sampleNow + 300000 + 3600000
   \<and> (\<exists>r0 r1 r2 r3 r4 e1 e4.
         ticks postOk
           [(Inr (fleetWith 0 0 80), sampleNow), (Inr (fleetWith 0 0 60), sampleNow + 300000),
            (Inr (fleetWith 0 0 60), sampleNow + 600000),
            (Inr (fleetWith 0 0 80), sampleNow + 900000),
            (Inr (fleetWith 0 0 60), sampleNow + 1200000)] sampleMonitor
           = [r0, r1, r2, r3, r4]
         \<and> filter (aboutProvider ''hetzner'') (emitted r0) = []
         \<and> filter (aboutProvider ''hetzner'') (emitted r1) = [e1]
         \<and> priority e1 = High
         \<and> suppressUntil e1 = Some (sampleNow + 300000 + 3600000)
         \<and> suppressedProviders (monitor r1) ''hetzner'' = Some (sampleNow + 300000 + 3600000)
         \<and> filter (aboutProvider ''hetzner'') (emitted r2) = []
         \<and> filter (aboutProvider ''hetzner'') (emitted r3) = []
         \<and> suppressedProviders (monitor r3) ''hetzner'' = None
         \<and> filter (aboutProvider ''hetzner'') (emitted r4) = [e4]
         \<and> priority e4 = High
         \<and> suppressUntil e4 = Some (sampleNow + 1200000 + 3600000))"
proof -
  have run: "running sampleMonitor"
    by (simp add: sample_defs)
  have fl: "providerDegradedScore (thresholds sampleMonitor) = 75"
    by (simp add: sample_threshold_values)
  have ok: "expiriesRepresentable sampleNow sampleMonitor"
    "expiriesRepresentable (sampleNow + 300000) sampleMonitor"
    "expiriesRepresentable (sampleNow + 600000) sampleMonitor"
    "expiriesRepresentable (sampleNow + 900000) sampleMonitor"
    "expiriesRepresentable (sampleNow + 1200000) sampleMonitor"
    using expiriesRepresentable_sample[OF sample_threshold_values(1), of 0]
      expiriesRepresentable_sample[OF sample_threshold_values(1), of 300000]
      expiriesRepresentable_sample[OF sample_threshold_values(1), of 600000]
      expiriesRepresentable_sample[OF sample_threshold_values(1), of 900000]
      expiriesRepresentable_sample[OF sample_threshold_values(1), of 1200000]
    by simp_all
  have d: "distinct (map fst (byProvider (fleetWith 0 0 x)))" for x
    by (simp add: byProvider_fleetWith)
  have m: "map_of (byProvider (fleetWith 0 0 x)) ''hetzner'' = Some (sampleSummary x)" for x
    by (simp add: byProvider_fleetWith)
  have h: "healthScore (sampleSummary x) = x" for x
    by (simp add: sampleSummary_def)
  have hi: "healthScore (sampleSummary 80) \<ge> providerDegradedScore (thresholds sampleMonitor)"
    and lo: "healthScore (sampleSummary 60) < providerDegradedScore (thresholds sampleMonitor)"
    by (simp_all add: h fl)
  have w: "sampleNow + 600000 \<le> sampleNow + 300000 + 3600000"
    by simp
  note t = provider_degradation_trace[OF run ok d d d d d m m m m m hi hi lo lo lo w,
      where post = postOk]
  have "\<exists>r0 r1 r2 r3 r4 e1 e4.
         ticks postOk
           [(Inr (fleetWith 0 0 80), sampleNow), (Inr (fleetWith 0 0 60), sampleNow + 300000),
            (Inr (fleetWith 0 0 60), sampleNow + 600000),
            (Inr (fleetWith 0 0 80), sampleNow + 900000),
            (Inr (fleetWith 0 0 60), sampleNow + 1200000)] sampleMonitor
           = [r0, r1, r2, r3, r4]
         \<and> filter (aboutProvider ''hetzner'') (emitted r0) = []
         \<and> filter (aboutProvider ''hetzner'') (emitted r1) = [e1]
         \<and> priority e1 = High
         \<and> suppressUntil e1 = Some (sampleNow + 300000 + 3600000)
         \<and> suppressedProviders (monitor r1) ''hetzner'' = Some (sampleNow + 300000 + 3600000)
         \<and> filter (aboutProvider ''hetzner'') (emitted r2) = []
         \<and> filter (aboutProvider ''hetzner'') (emitted r3) = []
         \<and> suppressedProviders (monitor r3) ''hetzner'' = None
         \<and> filter (aboutProvider ''hetzner'') (emitted r4) = [e4]
         \<and> priority e4 = High
         \<and> suppressUntil e4 = Some (sampleNow + 1200000 + 3600000)"
    using t unfolding h by simp
  with run fl m h w show ?thesis by blast
qed

text \<open>
  C6. The cost-anomaly rule: \<open>checkCostAnomaly\<close> returns an event if and only if the
  absolute value of the deviation percentage is at least the configured ceiling; the event
  is a \<open>COST_ANOMALY\<close> for the ledger agent, at priority high when the absolute deviation
  exceeds 25 and medium otherwise, carrying the actual amount, the projected amount, the
  signed deviation and the direction, \<open>over\<close> for a positive deviation and \<open>under\<close>
  otherwise; a sweep emits exactly that event as its \<open>COST_ANOMALY\<close> events. The rule
  does not read the suppression stores (its result is the same whatever they hold) and
  does not write them (the stores a sweep leaves are the same whatever the cost summary).
\<close>

theorem cost_anomaly_rule:
  "(checkCostAnomaly now fleet this \<noteq> None \<longleftrightarrow>
      \<bar>deviationPct (cost fleet)\<bar> \<ge> costAnomalyPct (thresholds this))
   \<and> (\<forall>e. checkCostAnomaly now fleet this = Some e \<longrightarrow>
         type e = COST_ANOMALY \<and> targetAgent e = Ledger
         \<and> priority e = (if \<bar>deviationPct (cost fleet)\<bar> > 25 then High else Medium)
         \<and> payload e = CostPayload (monthlyActualUsd (cost fleet))
                          (monthlyProjectedUsd (cost fleet)) (deviationPct (cost fleet))
                          (if deviationPct (cost fleet) > 0 then ''over'' else ''under'')
         \<and> suppressUntil e = None)
   \<and> (expiriesRepresentable now this \<longrightarrow>
         ofType COST_ANOMALY (emitted (runSweep (Inr fleet) post now this))
           = toList (checkCostAnomaly now fleet this))
   \<and> checkCostAnomaly now fleet (this\<lparr>suppressedInstances := a, suppressedProviders := b\<rparr>)
       = checkCostAnomaly now fleet this
   \<and> suppressedInstances (monitor (runSweep (Inr (fleet\<lparr>cost := c\<rparr>)) post now this))
       = suppressedInstances (monitor (runSweep (Inr fleet) post now this))
   \<and> suppressedProviders (monitor (runSweep (Inr (fleet\<lparr>cost := c\<rparr>)) post now this))
       = suppressedProviders (monitor (runSweep (Inr fleet) post now this))"
proof (intro conjI)
  show "checkCostAnomaly now fleet this \<noteq> None \<longleftrightarrow>
      \<bar>deviationPct (cost fleet)\<bar> \<ge> costAnomalyPct (thresholds this)"
    by (simp add: checkCostAnomaly_def Let_def)
  show "\<forall>e. checkCostAnomaly now fleet this = Some e \<longrightarrow>
         type e = COST_ANOMALY \<and> targetAgent e = Ledger
         \<and> priority e = (if \<bar>deviationPct (cost fleet)\<bar> > 25 then High else Medium)
         \<and> payload e = CostPayload (monthlyActualUsd (cost fleet))
                          (monthlyProjectedUsd (cost fleet)) (deviationPct (cost fleet))
                          (if deviationPct (cost fleet) > 0 then ''over'' else ''under'')
         \<and> suppressUntil e = None"
    by (auto simp: checkCostAnomaly_def Let_def split: if_splits)
  show "expiriesRepresentable now this \<longrightarrow>
         ofType COST_ANOMALY (emitted (runSweep (Inr fleet) post now this))
           = toList (checkCostAnomaly now fleet this)"
    using runSweep_summary(7)[of now this fleet post] by simp
  show "checkCostAnomaly now fleet (this\<lparr>suppressedInstances := a, suppressedProviders := b\<rparr>)
       = checkCostAnomaly now fleet this"
    by (simp add: checkCostAnomaly_def)
  show "suppressedInstances (monitor (runSweep (Inr (fleet\<lparr>cost := c\<rparr>)) post now this))
       = suppressedInstances (monitor (runSweep (Inr fleet) post now this))"
    using runSweep_ledgers_cost[of c fleet post now this] by simp
  show "suppressedProviders (monitor (runSweep (Inr (fleet\<lparr>cost := c\<rparr>)) post now this))
       = suppressedProviders (monitor (runSweep (Inr fleet) post now this))"
    using runSweep_ledgers_cost[of c fleet post now this] by simp
qed


theorem cost_anomaly_rule_witness:
  "(\<exists>e. checkCostAnomaly sampleNow (fleetCost 16) sampleMonitor = Some e
        \<and> type e = COST_ANOMALY \<and> priority e = Medium
        \<and> payload e = CostPayload 1160 1000 16 ''over'')
   \<and> (\<exists>e. checkCostAnomaly sampleNow (fleetCost (- 16)) sampleMonitor = Some e
        \<and> priority e = Medium \<and> payload e = CostPayload 840 1000 (- 16) ''under'')
   \<and> (\<exists>e. checkCostAnomaly sampleNow (fleetCost 30) sampleMonitor = Some e
        \<and> priority e = High)
   \<and> checkCostAnomaly sampleNow (fleetCost 14) sampleMonitor = None
   \<and> expiriesRepresentable sampleNow sampleMonitor
   \<and> ofType COST_ANOMALY (emitted (runSweep (Inr (fleetCost 14)) postOk sampleNow sampleMonitor))
       = []"
proof -
  have c: "costAnomalyPct (thresholds sampleMonitor) = 15"
    and d: "cost (fleetCost x) = \<lparr>monthlyActualUsd = 1000 + 10 * x, monthlyProjectedUsd = 1000,
              deviationPct = x, weeklyActualUsd = 250, perActiveAccountUsd = 100\<rparr>" for x
    by (simp_all add: sample_defs)
  have ok: "expiriesRepresentable sampleNow sampleMonitor"
    by (simp add: expiriesRepresentable_def sample_defs maxTimeValue_def)
  note t = cost_anomaly_rule[of sampleNow _ sampleMonitor postOk]
  have 1: "\<exists>e. checkCostAnomaly sampleNow (fleetCost 16) sampleMonitor = Some e
        \<and> type e = COST_ANOMALY \<and> priority e = Medium
        \<and> payload e = CostPayload 1160 1000 16 ''over''"
    using t[of "fleetCost 16"] by (simp add: c d) fastforce
  have 2: "\<exists>e. checkCostAnomaly sampleNow (fleetCost (- 16)) sampleMonitor = Some e
        \<and> priority e = Medium \<and> payload e = CostPayload 840 1000 (- 16) ''under''"
    using t[of "fleetCost (- 16)"] by (simp add: c d) fastforce
  have 3: "\<exists>e. checkCostAnomaly sampleNow (fleetCost 30) sampleMonitor = Some e
        \<and> priority e = High"
    using t[of "fleetCost 30"] by (simp add: c d) fastforce
  have 4: "checkCostAnomaly sampleNow (fleetCost 14) sampleMonitor = None"
    using t[of "fleetCost 14"] by (simp add: c d)
  have 5: "ofType COST_ANOMALY
      (emitted (runSweep (Inr (fleetCost 14)) postOk sampleNow sampleMonitor)) = []"
    using t[of "fleetCost 14"] ok 4 by (simp add: toList_def)
  show ?thesis using 1 2 3 4 5 ok by blast
qed

text \<open>
  C7. Fetch-failure atomicity: when the fetch of the fleet status fails, the sweep hands no
  event to the dispatcher, sends no request, and returns the monitor exactly as it was
  (both suppression stores, the last known snapshot, the running flag and the timer); it
  logs the failure and does not throw, and the timer's next callbacks run from that
  unchanged monitor.
\<close>

theorem fetch_failure_leaves_no_trace:
  "runSweep (Inl e) post now this =
     \<lparr>monitor = this, thrown = None, emitted = [], posts = [],
      logs = [DebugRunningSweep, ErrorFetchFailed e]\<rparr>
   \<and> monitor (tick (Inl e) post now this) = this
   \<and> thrown (tick (Inl e) post now this) = None
   \<and> emitted (tick (Inl e) post now this) = []
   \<and> posts (tick (Inl e) post now this) = []
   \<and> ticks post ((Inl e, now) # rest) this = tick (Inl e) post now this # ticks post rest this"
  by (simp add: runSweep_def tick_def Let_def)

text \<open>
  C8. Fleet recovery is an edge detector: \<open>checkFleetRecovery\<close> returns an event exactly
  when a previous snapshot exists, that snapshot had failed or degraded instances, and the
  current snapshot has neither; the event is a \<open>FLEET_RECOVERING\<close> at priority low, for
  the commander, carrying the previous failed and degraded counts. A sweep emits that one
  event and no other \<open>FLEET_RECOVERING\<close>, and records its snapshot as the previous one of
  the next sweep; so the first sweep emits none, and neither does a healthy sweep after a
  healthy one.
\<close>

theorem fleet_recovery_edge:
  "(checkFleetRecovery now fleet this \<noteq> None \<longleftrightarrow>
      (\<exists>prev. lastKnownState this = Some prev
         \<and> (failedInstances prev > 0 \<or> degradedInstances prev > 0)
         \<and> failedInstances fleet = 0 \<and> degradedInstances fleet = 0))
   \<and> (\<forall>e prev. checkFleetRecovery now fleet this = Some e \<and> lastKnownState this = Some prev
         \<longrightarrow> type e = FLEET_RECOVERING \<and> priority e = Low \<and> targetAgent e = Commander
             \<and> payload e = RecoveryPayload (failedInstances prev) (degradedInstances prev))
   \<and> (expiriesRepresentable now this \<longrightarrow>
         ofType FLEET_RECOVERING (emitted (runSweep (Inr fleet) post now this))
           = toList (checkFleetRecovery now fleet this)
         \<and> lastKnownState (monitor (runSweep (Inr fleet) post now this)) = Some fleet)
   \<and> (lastKnownState this = None \<longrightarrow>
         ofType FLEET_RECOVERING (emitted (runSweep fetched post now this)) = [])"
proof (intro conjI)
  show "checkFleetRecovery now fleet this \<noteq> None \<longleftrightarrow>
      (\<exists>prev. lastKnownState this = Some prev
         \<and> (failedInstances prev > 0 \<or> degradedInstances prev > 0)
         \<and> failedInstances fleet = 0 \<and> degradedInstances fleet = 0)"
    by (auto simp: checkFleetRecovery_def split: option.splits)
  show "\<forall>e prev. checkFleetRecovery now fleet this = Some e \<and> lastKnownState this = Some prev
         \<longrightarrow> type e = FLEET_RECOVERING \<and> priority e = Low \<and> targetAgent e = Commander
             \<and> payload e = RecoveryPayload (failedInstances prev) (degradedInstances prev)"
    by (auto simp: checkFleetRecovery_def split: if_splits)
  show "expiriesRepresentable now this \<longrightarrow>
         ofType FLEET_RECOVERING (emitted (runSweep (Inr fleet) post now this))
           = toList (checkFleetRecovery now fleet this)
         \<and> lastKnownState (monitor (runSweep (Inr fleet) post now this)) = Some fleet"
    using runSweep_summary(2,9)[of now this fleet post] by simp
  show "lastKnownState this = None \<longrightarrow>
         ofType FLEET_RECOVERING (emitted (runSweep fetched post now this)) = []"
  proof
    assume n: "lastKnownState this = None"
    show "ofType FLEET_RECOVERING (emitted (runSweep fetched post now this)) = []"
    proof (cases fetched)
      case (Inl e)
      then show ?thesis by (simp add: runSweep_def)
    next
      case (Inr fleet)
      obtain this1 r1 where i: "checkInstanceHealth now fleet this = (this1, r1)"
        by (cases "checkInstanceHealth now fleet this")
      obtain this2 r2 where p: "checkProviderHealth now fleet this1 = (this2, r2)"
        by (cases "checkProviderHealth now fleet this1")
      have l: "lastKnownState this2 = None"
        using checkInstanceHealth_fields(6)[OF i] checkProviderHealth_fields(6)[OF p] n by simp
      have rec: "toList (checkFleetRecovery now fleet this2) = []"
        using l by (simp add: checkFleetRecovery_def toList_def)
      show ?thesis
      proof (cases r1)
        case (Inl e)
        then show ?thesis using Inr i by (simp add: runSweep_def)
      next
        case ie: (Inr instanceEvents)
        have t1: "ofType FLEET_RECOVERING instanceEvents = []"
          using checkInstanceHealth_types[OF i[unfolded ie]]
          by (fastforce simp: ofType_def filter_empty_conv)
        show ?thesis
        proof (cases r2)
          case (Inl e)
          then show ?thesis using Inr i ie p by (simp add: runSweep_def)
        next
          case pe: (Inr providerEvents)
          show ?thesis
            using Inr i ie p pe rec t1 ofType_checkProviderHealth[OF p[unfolded pe]]
            by (simp add: runSweep_def Let_def ofType_checkCostAnomaly
                ofType_checkProvisionQueue split: prod.splits)
        qed
      qed
    qed
  qed
qed


theorem fleet_recovery_edge_witness:
  "expiriesRepresentable sampleNow (sampleMonitor\<lparr>lastKnownState := Some (fleetWith 0 3 80)\<rparr>)
   \<and> (\<exists>e. ofType FLEET_RECOVERING
             (emitted (runSweep (Inr sampleFleet) postOk sampleNow
                (sampleMonitor\<lparr>lastKnownState := Some (fleetWith 0 3 80)\<rparr>))) = [e]
          \<and> type e = FLEET_RECOVERING \<and> priority e = Low \<and> targetAgent e = Commander
          \<and> payload e = RecoveryPayload 3 0)
   \<and> lastKnownState sampleMonitor = None
   \<and> ofType FLEET_RECOVERING
        (emitted (runSweep (Inr sampleFleet) postOk sampleNow sampleMonitor)) = []
   \<and> expiriesRepresentable sampleNow sampleMonitor
   \<and> ofType FLEET_RECOVERING
        (emitted (runSweep (Inr sampleFleet) postOk (sampleNow + 300000)
           (sampleMonitor\<lparr>lastKnownState := Some sampleFleet\<rparr>))) = []"
proof -
  let ?m = "sampleMonitor\<lparr>lastKnownState := Some (fleetWith 0 3 80)\<rparr>"
  let ?h = "sampleMonitor\<lparr>lastKnownState := Some sampleFleet\<rparr>"
  have ok: "expiriesRepresentable sampleNow ?m" "expiriesRepresentable sampleNow sampleMonitor"
    "expiriesRepresentable (sampleNow + 300000) ?h"
    by (simp_all add: expiriesRepresentable_def sample_defs maxTimeValue_def)
  have n: "lastKnownState sampleMonitor = None"
    by (simp add: sample_defs)
  obtain e where e: "checkFleetRecovery sampleNow sampleFleet ?m = Some e"
    using fleet_recovery_edge[of sampleNow sampleFleet ?m postOk "Inr sampleFleet"]
    by (auto simp: sample_defs)
  have p: "type e = FLEET_RECOVERING \<and> priority e = Low \<and> targetAgent e = Commander
             \<and> payload e = RecoveryPayload 3 0"
    using fleet_recovery_edge[of sampleNow sampleFleet ?m postOk "Inr sampleFleet"] e
    by (simp add: sample_defs)
  have s: "ofType FLEET_RECOVERING (emitted (runSweep (Inr sampleFleet) postOk sampleNow ?m)) = [e]"
    using fleet_recovery_edge[of sampleNow sampleFleet ?m postOk "Inr sampleFleet"] ok(1) e
    by (simp add: toList_def)
  have f: "ofType FLEET_RECOVERING
        (emitted (runSweep (Inr sampleFleet) postOk sampleNow sampleMonitor)) = []"
    using fleet_recovery_edge[of sampleNow sampleFleet sampleMonitor postOk "Inr sampleFleet"] n
    by simp
  have "checkFleetRecovery (sampleNow + 300000) sampleFleet ?h = None"
    using fleet_recovery_edge[of "sampleNow + 300000" sampleFleet ?h postOk "Inr sampleFleet"]
    by (simp add: sample_defs)
  then have g: "ofType FLEET_RECOVERING
        (emitted (runSweep (Inr sampleFleet) postOk (sampleNow + 300000) ?h)) = []"
    using fleet_recovery_edge[of "sampleNow + 300000" sampleFleet ?h postOk "Inr sampleFleet"] ok(3)
    by (simp add: toList_def)
  show ?thesis
    using ok n s p f g by blast
qed

text \<open>
  C9. Events without an address are dropped: \<open>emitEvent\<close> resolves the target of the
  event through \<open>getSessionId\<close>, which never has an address for forge; when the lookup
  gives no address (or an empty one) the event is logged, a warning is logged, no request
  is sent, and \<open>emitEvent\<close> returns normally. It returns normally for every event, dispatcher
  and monitor. The requests of a sweep are those of its emitted events: each carries an
  emitted event whose target has an address, and none carries an event for forge.
\<close>

theorem no_address_drop:
  "getSessionId Forge this = None
   \<and> (getSessionId (targetAgent event) this = None
        \<or> getSessionId (targetAgent event) this = Some [] \<longrightarrow>
      emitEvent post event this
        = Inr ([LogEmit (type event) (targetAgent event) (priority event),
                WarnNoSession (targetAgent event)], []))
   \<and> (\<exists>out. emitEvent post event this = Inr out)
   \<and> posts (runSweep fetched post now this)
       = snd (emitAll post (emitted (runSweep fetched post now this)) this)
   \<and> (\<forall>request \<in> set (posts (runSweep fetched post now this)).
        data request \<in> set (emitted (runSweep fetched post now this))
        \<and> targetAgent (data request) \<noteq> Forge
        \<and> getSessionId (targetAgent (data request)) this \<noteq> None)"
proof (intro conjI)
  show "getSessionId Forge this = None" by simp
  show "getSessionId (targetAgent event) this = None
        \<or> getSessionId (targetAgent event) this = Some [] \<longrightarrow>
      emitEvent post event this
        = Inr ([LogEmit (type event) (targetAgent event) (priority event),
                WarnNoSession (targetAgent event)], [])"
    by (auto simp: emitEvent_def Let_def)
  show "\<exists>out. emitEvent post event this = Inr out"
    by (rule emitEvent_returns)
  show "posts (runSweep fetched post now this)
       = snd (emitAll post (emitted (runSweep fetched post now this)) this)"
    by (rule runSweep_posts)
  show "\<forall>request \<in> set (posts (runSweep fetched post now this)).
        data request \<in> set (emitted (runSweep fetched post now this))
        \<and> targetAgent (data request) \<noteq> Forge
        \<and> getSessionId (targetAgent (data request)) this \<noteq> None"
    unfolding runSweep_posts using emitAll_requests by fastforce
qed


theorem no_address_drop_witness:
  "getSessionId (targetAgent sampleQueueEvent) sampleMonitor = None
   \<and> emitEvent postFails sampleQueueEvent sampleMonitor
       = Inr ([LogEmit PROVISION_QUEUE_BACKLOG Forge Medium, WarnNoSession Forge], [])
   \<and> emitted (runSweep (Inr (sampleFleet\<lparr>bootstrappingInstances := 30\<rparr>)) postOk sampleNow
                sampleMonitor) = [sampleQueueEvent]
   \<and> posts (runSweep (Inr (sampleFleet\<lparr>bootstrappingInstances := 30\<rparr>)) postOk sampleNow
              sampleMonitor) = []
   \<and> (\<exists>request. request \<in> set (posts (runSweep (Inr (fleetWith 0 2 80)) postOk sampleNow
                                       sampleMonitor))
         \<and> data request = pairFailedEvent sampleNow (fleetWith 0 2 80)
         \<and> targetAgent (data request) \<noteq> Forge
         \<and> getSessionId (targetAgent (data request)) sampleMonitor \<noteq> None)"
proof -
  have t: "targetAgent sampleQueueEvent = Forge" "type sampleQueueEvent = PROVISION_QUEUE_BACKLOG"
    "priority sampleQueueEvent = Medium"
    by (simp_all add: sampleQueueEvent_def)
  have n: "getSessionId (targetAgent sampleQueueEvent) sampleMonitor = None"
    by (simp add: t)
  have d: "emitEvent postFails sampleQueueEvent sampleMonitor
       = Inr ([LogEmit PROVISION_QUEUE_BACKLOG Forge Medium, WarnNoSession Forge], [])"
    using no_address_drop[of sampleMonitor sampleQueueEvent postFails] n by (simp add: t)
  have e: "emitted (runSweep (Inr (sampleFleet\<lparr>bootstrappingInstances := 30\<rparr>)) postOk sampleNow
                sampleMonitor) = [sampleQueueEvent]"
    by (simp add: eval_defs sample_defs)
  have p: "posts (runSweep (Inr (sampleFleet\<lparr>bootstrappingInstances := 30\<rparr>)) postOk sampleNow
              sampleMonitor) = []"
    using no_address_drop[of sampleMonitor sampleQueueEvent postOk
        "Inr (sampleFleet\<lparr>bootstrappingInstances := 30\<rparr>)" sampleNow] n
    by (simp add: e t)
  have q: "posts (runSweep (Inr (fleetWith 0 2 80)) postOk sampleNow sampleMonitor)
      = [requestFor ''s-guardian'' (pairFailedEvent sampleNow (fleetWith 0 2 80)) sampleMonitor]"
    by (simp add: eval_defs sample_defs requestFor_def pairFailedEvent_def)
  let ?rq = "requestFor ''s-guardian'' (pairFailedEvent sampleNow (fleetWith 0 2 80)) sampleMonitor"
  have m: "?rq \<in> set (posts (runSweep (Inr (fleetWith 0 2 80)) postOk sampleNow sampleMonitor))"
    by (simp add: q)
  have dr: "data ?rq = pairFailedEvent sampleNow (fleetWith 0 2 80)"
    by (simp add: requestFor_def)
  have "targetAgent (data ?rq) \<noteq> Forge
         \<and> getSessionId (targetAgent (data ?rq)) sampleMonitor \<noteq> None"
    using no_address_drop[of sampleMonitor sampleQueueEvent postOk
        "Inr (fleetWith 0 2 80)" sampleNow] m by blast
  with m dr have "\<exists>request. request \<in> set (posts (runSweep (Inr (fleetWith 0 2 80)) postOk sampleNow
                                       sampleMonitor))
         \<and> data request = pairFailedEvent sampleNow (fleetWith 0 2 80)
         \<and> targetAgent (data request) \<noteq> Forge
         \<and> getSessionId (targetAgent (data request)) sampleMonitor \<noteq> None"
    by blast
  with n d e p show ?thesis by blast
qed

text \<open>
  C10. Of the eight event types, \<open>INSTANCE_FAILED\<close> and \<open>FLEET_HEALTHY\<close> are never
  produced: whatever the monitor, the dispatcher and the sequence of timer callbacks (each
  with its fetch outcome and clock), every event of every sweep has one of the other six
  types, and its target is the one fixed for its type: the guardian for
  \<open>INSTANCE_DEGRADED\<close> and \<open>PAIR_FAILED\<close>, the ledger agent for \<open>COST_ANOMALY\<close>, forge for
  \<open>PROVISION_QUEUE_BACKLOG\<close>, the commander for \<open>PROVIDER_DEGRADED\<close> and
  \<open>FLEET_RECOVERING\<close>.
\<close>

theorem six_types_fixed_targets:
  "\<forall>r \<in> set (ticks post inputs this). \<forall>e \<in> set (emitted r).
     type e \<noteq> INSTANCE_FAILED \<and> type e \<noteq> FLEET_HEALTHY
     \<and> targetOf (type e) = Some (targetAgent e)
     \<and> (type e, targetAgent e) \<in>
         {(INSTANCE_DEGRADED, Guardian), (PAIR_FAILED, Guardian), (COST_ANOMALY, Ledger),
          (PROVISION_QUEUE_BACKLOG, Forge), (PROVIDER_DEGRADED, Commander),
          (FLEET_RECOVERING, Commander)}"
proof (induction inputs arbitrary: this)
  case Nil
  then show ?case by simp
next
  case (Cons a inputs)
  obtain fetched now where a: "a = (fetched, now)" by (cases a)
  have h: "targetOf (type e) = Some (targetAgent e) \<Longrightarrow>
     type e \<noteq> INSTANCE_FAILED \<and> type e \<noteq> FLEET_HEALTHY
     \<and> targetOf (type e) = Some (targetAgent e)
     \<and> (type e, targetAgent e) \<in>
         {(INSTANCE_DEGRADED, Guardian), (PAIR_FAILED, Guardian), (COST_ANOMALY, Ledger),
          (PROVISION_QUEUE_BACKLOG, Forge), (PROVIDER_DEGRADED, Commander),
          (FLEET_RECOVERING, Commander)}" for e :: MonitorEvent
    by (cases "type e") auto
  show ?case
    using tick_targets[of fetched post now this] Cons.IH[of "monitor (tick fetched post now this)"] h
    by (simp add: a Let_def)
qed


theorem six_types_fixed_targets_witness:
  "\<exists>r e. r \<in> set (ticks postOk [(Inr (fleetWith 3 2 60), sampleNow)] sampleMonitor)
      \<and> e \<in> set (emitted r) \<and> e = pairFailedEvent sampleNow (fleetWith 3 2 60)
      \<and> type e \<noteq> INSTANCE_FAILED \<and> type e \<noteq> FLEET_HEALTHY
      \<and> targetOf (type e) = Some (targetAgent e)
      \<and> (type e, targetAgent e) \<in>
         {(INSTANCE_DEGRADED, Guardian), (PAIR_FAILED, Guardian), (COST_ANOMALY, Ledger),
          (PROVISION_QUEUE_BACKLOG, Forge), (PROVIDER_DEGRADED, Commander),
          (FLEET_RECOVERING, Commander)}"
proof -
  let ?r = "tick (Inr (fleetWith 3 2 60)) postOk sampleNow sampleMonitor"
  let ?e = "pairFailedEvent sampleNow (fleetWith 3 2 60)"
  have ok: "expiriesRepresentable sampleNow sampleMonitor"
    by (simp add: expiriesRepresentable_def sample_defs maxTimeValue_def)
  have r: "?r \<in> set (ticks postOk [(Inr (fleetWith 3 2 60), sampleNow)] sampleMonitor)"
    by (simp add: Let_def)
  have "running sampleMonitor" by (simp add: sample_defs)
  then have "emitted ?r = emitted (runSweep (Inr (fleetWith 3 2 60)) postOk sampleNow sampleMonitor)"
    by (simp add: tick_def Let_def)
  moreover have "ofType PAIR_FAILED
      (emitted (runSweep (Inr (fleetWith 3 2 60)) postOk sampleNow sampleMonitor)) = [?e]"
    using runSweep_summary(6)[OF ok, of "fleetWith 3 2 60" postOk] by (simp add: fleetWith_def)
  ultimately have "?e \<in> set (filter (\<lambda>e. type e = PAIR_FAILED) (emitted ?r))"
    by (simp add: ofType_def)
  then have e: "?e \<in> set (emitted ?r)" by simp
  show ?thesis
    using six_types_fixed_targets[of postOk "[(Inr (fleetWith 3 2 60), sampleNow)]" sampleMonitor]
      r e by blast
qed

end
